theory Spec2Isabelle
  imports Complex_Main
begin

section \<open>Behavior tree engine (src/app/utils/behaviorTree.ts)\<close>

text \<open>
  The engine is generic in the state its leaves read and write.  A leaf's \<open>action\<close> closure is
  modelled as a function from the world before the call to the returned status and the world
  after it.  A composite keeps its \<open>type\<close>, its \<open>children\<close> and the mutable cursor
  \<open>currentChild\<close>; \<open>execute\<close> returns the status together with the node as it is after the
  tick (cursors of the node and of its descendants updated) and the new world.  A node object
  is assumed to occur at one place of the tree only, as in every tree the repository builds.
\<close>

datatype NodeType = SELECTOR | SEQUENCE | ACTION | CONDITION

datatype NodeStatus = SUCCESS | FAILURE | RUNNING

datatype 's BehaviorNode =
    LeafNode NodeType "'s \<Rightarrow> NodeStatus \<times> 's"
  | CompositeNode NodeType "'s BehaviorNode list" nat

text \<open>
  The constructor of \<open>CompositeNode\<close> takes the type and the children; the cursor starts
  at 0.
\<close>

definition newCompositeNode :: "NodeType \<Rightarrow> 's BehaviorNode list \<Rightarrow> 's BehaviorNode" where
  "newCompositeNode t children = CompositeNode t children 0"

text \<open>
  \<open>CompositeNode.execute\<close>: the cursor is reset when it has run past the last child, then the
  loop of the node's type runs from the cursor.  \<open>selector_loop\<close> and \<open>sequence_loop\<close> are the two
  \<open>while (this.currentChild < this.children.length)\<close> loops with the statements after them;
  they return the status, the children, the cursor and the world.
\<close>

lemma size_nth_drop: "i < length cs \<Longrightarrow> size (cs ! i) < size_list size (drop i cs)"
  by (simp add: Cons_nth_drop_Suc [symmetric])

lemma size_drop_Suc:
  "i < length cs \<Longrightarrow> size_list size (drop (Suc i) cs) < size_list size (drop i cs)"
  by (simp add: Cons_nth_drop_Suc [symmetric])

lemma size_drop_le: "size_list size (drop i cs) \<le> size_list size cs"
  by (induction cs arbitrary: i)
     (auto simp: drop_Cons split: nat.splits intro: le_SucI trans_le_add2)

text \<open>
  Every tick ends: a loop only moves its cursor to the right, and a child is a proper part of
  its parent.  The three lemmas above are what the termination proof needs of the children
  from the cursor on.
\<close>

function execute :: "'s BehaviorNode \<Rightarrow> 's \<Rightarrow> NodeStatus \<times> 's BehaviorNode \<times> 's"
  and selector_loop ::
    "'s BehaviorNode list \<Rightarrow> nat \<Rightarrow> 's \<Rightarrow> NodeStatus \<times> 's BehaviorNode list \<times> nat \<times> 's"
  and sequence_loop ::
    "'s BehaviorNode list \<Rightarrow> nat \<Rightarrow> 's \<Rightarrow> NodeStatus \<times> 's BehaviorNode list \<times> nat \<times> 's"
where
  "execute (LeafNode t action) w =
     (case action w of (status, w') \<Rightarrow> (status, LeafNode t action, w'))"
| "execute (CompositeNode t children currentChild) w =
     (let currentChild = (if currentChild \<ge> length children then 0 else currentChild) in
      if t = SELECTOR then
        (case selector_loop children currentChild w of
           (status, children', currentChild', w') \<Rightarrow>
             (status, CompositeNode t children' currentChild', w'))
      else if t = SEQUENCE then
        (case sequence_loop children currentChild w of
           (status, children', currentChild', w') \<Rightarrow>
             (status, CompositeNode t children' currentChild', w'))
      else (FAILURE, CompositeNode t children currentChild, w))"
| "selector_loop children currentChild w =
     (if currentChild < length children then
        (case execute (children ! currentChild) w of
           (status, child', w') \<Rightarrow>
             if status = RUNNING then (RUNNING, children[currentChild := child'], currentChild, w')
             else if status = SUCCESS then (SUCCESS, children[currentChild := child'], 0, w')
             else selector_loop (children[currentChild := child']) (currentChild + 1) w')
      else (FAILURE, children, 0, w))"
| "sequence_loop children currentChild w =
     (if currentChild < length children then
        (case execute (children ! currentChild) w of
           (status, child', w') \<Rightarrow>
             if status = RUNNING then (RUNNING, children[currentChild := child'], currentChild, w')
             else if status = FAILURE then (FAILURE, children[currentChild := child'], 0, w')
             else sequence_loop (children[currentChild := child']) (currentChild + 1) w')
      else (SUCCESS, children, 0, w))"
  by pat_completeness auto

termination
  apply (relation "measure (\<lambda>a. case a of
            Inl (n, w) \<Rightarrow> size n
          | Inr (Inl (cs, i, w)) \<Rightarrow> size_list size (drop i cs)
          | Inr (Inr (cs, i, w)) \<Rightarrow> size_list size (drop i cs))")
  apply (auto simp: size_nth_drop size_drop_Suc le_imp_less_Suc size_drop_le)
  done

declare execute.simps [simp del] selector_loop.simps [simp del] sequence_loop.simps [simp del]

text \<open>The cursor a tick starts from: the remembered one, or 0 when it is out of range.\<close>

definition startCursor :: "'s BehaviorNode list \<Rightarrow> nat \<Rightarrow> nat" where
  "startCursor children currentChild =
     (if currentChild \<ge> length children then 0 else currentChild)"

text \<open>
  Scripted leaves over a world that is the log of the leaves invoked so far; they give the
  engine's theorems concrete trees to run on.
\<close>

definition logLeaf :: "nat \<Rightarrow> NodeStatus \<Rightarrow> nat list BehaviorNode" where
  "logLeaf n status = LeafNode ACTION (\<lambda>log. (status, log @ [n]))"

definition logLeafThen :: "nat \<Rightarrow> NodeStatus \<Rightarrow> NodeStatus \<Rightarrow> nat list BehaviorNode" where
  "logLeafThen n first later =
     LeafNode ACTION (\<lambda>log. (if n \<in> set log then later else first, log @ [n]))"

text \<open>The leaf closures that occur in a tree.\<close>

fun leafActions :: "'s BehaviorNode \<Rightarrow> ('s \<Rightarrow> NodeStatus \<times> 's) set" where
  "leafActions (LeafNode t action) = {action}"
| "leafActions (CompositeNode t children currentChild) = (\<Union>c \<in> set children. leafActions c)"

section \<open>Numbers and the three.js primitives\<close>

text \<open>
  A JavaScript \<open>number\<close> is modelled as a real: the model computes in exact arithmetic what
  the code computes in double precision, so rounding, overflow and NaN are outside it.
  \<open>THREE.Vector3\<close>, \<open>THREE.Euler\<close> and \<open>THREE.Matrix4\<close> belong to the three.js library; the
  methods the simulation calls are written out below with the arithmetic three.js performs.
  The coordinate fields \<open>x\<close>, \<open>y\<close>, \<open>z\<close> are named \<open>vx\<close>, \<open>vy\<close>, \<open>vz\<close> for a vector and
  \<open>ex\<close>, \<open>ey\<close>, \<open>ez\<close> for Euler angles.  Every Euler value of the repository has the default
  order XYZ.  \<open>copy\<close> and \<open>clone\<close> are the identity on values.
\<close>

record Vector3 =
  vx :: real
  vy :: real
  vz :: real

record Euler =
  ex :: real
  ey :: real
  ez :: real

definition distanceToSquared :: "Vector3 \<Rightarrow> Vector3 \<Rightarrow> real" where
  "distanceToSquared a v =
     (let dx = vx a - vx v; dy = vy a - vy v; dz = vz a - vz v
      in dx * dx + dy * dy + dz * dz)"

definition distanceTo :: "Vector3 \<Rightarrow> Vector3 \<Rightarrow> real" where
  "distanceTo a v = sqrt (distanceToSquared a v)"

definition lengthV :: "Vector3 \<Rightarrow> real" where
  "lengthV a = sqrt (vx a * vx a + vy a * vy a + vz a * vz a)"

definition multiplyScalar :: "Vector3 \<Rightarrow> real \<Rightarrow> Vector3" where
  "multiplyScalar a s = \<lparr>vx = vx a * s, vy = vy a * s, vz = vz a * s\<rparr>"

definition divideScalar :: "Vector3 \<Rightarrow> real \<Rightarrow> Vector3" where
  "divideScalar a s = multiplyScalar a (1 / s)"

text \<open>\<open>normalize\<close> divides by \<open>this.length() || 1\<close>: the zero vector stays the zero vector.\<close>

definition normalize :: "Vector3 \<Rightarrow> Vector3" where
  "normalize a = divideScalar a (if lengthV a = 0 then 1 else lengthV a)"

definition addV :: "Vector3 \<Rightarrow> Vector3 \<Rightarrow> Vector3" where
  "addV a v = \<lparr>vx = vx a + vx v, vy = vy a + vy v, vz = vz a + vz v\<rparr>"

text \<open>A \<open>Matrix4\<close> is its array \<open>elements\<close> of 16 numbers in column-major order.\<close>

type_synonym Matrix4 = "real list"

definition makeRotationFromEuler :: "Euler \<Rightarrow> Matrix4" where
  "makeRotationFromEuler euler =
     (let a = cos (ex euler); b = sin (ex euler);
          c = cos (ey euler); d = sin (ey euler);
          e = cos (ez euler); f = sin (ez euler);
          ae = a * e; af = a * f; be = b * e; bf = b * f
      in [c * e, af + be * d, bf - ae * d, 0,
          - c * f, ae - bf * d, be + af * d, 0,
          d, - b * c, a * c, 0,
          0, 0, 0, 1])"

definition applyMatrix4 :: "Vector3 \<Rightarrow> Matrix4 \<Rightarrow> Vector3" where
  "applyMatrix4 a e =
     (let x = vx a; y = vy a; z = vz a;
          w = 1 / (e ! 3 * x + e ! 7 * y + e ! 11 * z + e ! 15)
      in \<lparr>vx = (e ! 0 * x + e ! 4 * y + e ! 8 * z + e ! 12) * w,
          vy = (e ! 1 * x + e ! 5 * y + e ! 9 * z + e ! 13) * w,
          vz = (e ! 2 * x + e ! 6 * y + e ! 10 * z + e ! 14) * w\<rparr>)"

text \<open>\<open>Math.atan2(y, x)\<close>, the angle of the point \<open>(x, y)\<close> in \<open>(-\<pi>, \<pi>]\<close>.\<close>

definition atan2 :: "real \<Rightarrow> real \<Rightarrow> real" where
  "atan2 y x =
     (if 0 < x then arctan (y / x)
      else if x < 0 \<and> 0 \<le> y then arctan (y / x) + pi
      else if x < 0 \<and> y < 0 then arctan (y / x) - pi
      else if 0 < y then pi / 2
      else if y < 0 then - (pi / 2)
      else 0)"

section \<open>Sphere overlap (src/app/utils/collision.ts)\<close>

text \<open>The console output of \<open>didSpheresCollide\<close> is not part of the model.\<close>

definition didSpheresCollide :: "Vector3 \<Rightarrow> real \<Rightarrow> Vector3 \<Rightarrow> real \<Rightarrow> bool" where
  "didSpheresCollide sphere1Center sphere1Radius sphere2Center sphere2Radius =
     (let center1 = sphere1Center; center2 = sphere2Center;
          distance = distanceTo center1 center2;
          collides = (distance \<le> sphere1Radius + sphere2Radius)
      in collides)"

text \<open>
  The Euclidean distance of two points of space as geometry defines it: the square root of
  the sum, over the three coordinates, of the squared coordinate differences.
\<close>

definition euclideanDistance :: "Vector3 \<Rightarrow> Vector3 \<Rightarrow> real" where
  "euclideanDistance A B = sqrt (\<Sum>c\<leftarrow>[vx, vy, vz]. (c A - c B)\<^sup>2)"

text \<open>The distance of the two points in the horizontal plane, the Y coordinates ignored.\<close>

definition planarDistance :: "Vector3 \<Rightarrow> Vector3 \<Rightarrow> real" where
  "planarDistance A B = sqrt ((vx A - vx B)\<^sup>2 + (vz A - vz B)\<^sup>2)"

text \<open>
  A vector turned about the vertical axis by the yaw \<open>\<theta>\<close>, in the right-handed frame of
  three.js: the local Z axis goes to \<open>(sin \<theta>, 0, cos \<theta>)\<close>.
\<close>

definition rotateYaw :: "real \<Rightarrow> Vector3 \<Rightarrow> Vector3" where
  "rotateYaw \<theta> v =
     \<lparr>vx = vx v * cos \<theta> + vz v * sin \<theta>, vy = vy v, vz = vz v * cos \<theta> - vx v * sin \<theta>\<rparr>"

section \<open>The state store (src/app/context/GameState.tsx)\<close>

text \<open>
  \<open>GameStateType\<close> is the React state of the provider, \<open>VibenRingGlobalState\<close> the mirror kept
  in \<open>window.vibenRingGlobalState\<close> (its fields carry the prefix \<open>g_\<close>).  The four camera
  fields of both are presentation only and are left out.
\<close>

record GameStateType =
  bossHp :: real
  playerHp :: real
  playerStamina :: real
  playerPosition :: Vector3
  playerRotation :: Euler
  bossPosition :: Vector3
  bossRotation :: Euler
  playerCollisionSphereOffset :: Vector3
  playerCollisionSphereRadius :: real
  playerAttackSphereOffset :: Vector3
  playerAttackSphereRadius :: real
  bossCollisionSphereOffset :: Vector3
  bossCollisionSphereRadius :: real
  bossAttackSphereOffset :: Vector3
  bossAttackSphereRadius :: real
  isDebugMode :: bool

record VibenRingGlobalState =
  g_playerPosition :: Vector3
  g_playerRotation :: Euler
  g_playerCollisionSphereOffset :: Vector3
  g_playerCollisionSphereRadius :: real
  g_playerAttackSphereOffset :: Vector3
  g_playerAttackSphereRadius :: real
  g_bossPosition :: Vector3
  g_bossRotation :: Euler
  g_bossCollisionSphereOffset :: Vector3
  g_bossCollisionSphereRadius :: real
  g_bossAttackSphereOffset :: Vector3
  g_bossAttackSphereRadius :: real
  g_playerHp :: real
  g_bossHp :: real

definition defaultGameState :: GameStateType where
  "defaultGameState =
     \<lparr>bossHp = 2000,
      playerHp = 100,
      playerStamina = 100,
      playerPosition = \<lparr>vx = 0, vy = 0, vz = 0\<rparr>,
      playerRotation = \<lparr>ex = 0, ey = 0, ez = 0\<rparr>,
      bossPosition = \<lparr>vx = 0, vy = 0, vz = 20\<rparr>,
      bossRotation = \<lparr>ex = 0, ey = pi, ez = 0\<rparr>,
      playerCollisionSphereOffset = \<lparr>vx = 0, vy = 1.0, vz = 0\<rparr>,
      playerCollisionSphereRadius = 0.6,
      playerAttackSphereOffset = \<lparr>vx = 0, vy = 1.0, vz = 1.5\<rparr>,
      playerAttackSphereRadius = 0.8,
      bossCollisionSphereOffset = \<lparr>vx = 0, vy = 2.0, vz = 0\<rparr>,
      bossCollisionSphereRadius = 1.5,
      bossAttackSphereOffset = \<lparr>vx = 0, vy = 1.5, vz = 10.0\<rparr>,
      bossAttackSphereRadius = 1.2,
      isDebugMode = False\<rparr>"

text \<open>The largest boss HP: the value the boss starts with.\<close>

definition maxHp :: real where
  "maxHp = bossHp defaultGameState"

text \<open>
  The mirror as the provider's first effect creates it: positions, rotations and offsets are
  fresh zero vectors, the radii and the two HP values come from \<open>defaultGameState\<close>.  The
  provider's second effect copies the eight collision parameters of the React state into the
  mirror; it runs after the first one and whenever one of these parameters changes.
\<close>

definition initialGlobalState :: VibenRingGlobalState where
  "initialGlobalState =
     \<lparr>g_playerPosition = \<lparr>vx = 0, vy = 0, vz = 0\<rparr>,
      g_playerRotation = \<lparr>ex = 0, ey = 0, ez = 0\<rparr>,
      g_playerCollisionSphereOffset = \<lparr>vx = 0, vy = 0, vz = 0\<rparr>,
      g_playerCollisionSphereRadius = playerCollisionSphereRadius defaultGameState,
      g_playerAttackSphereOffset = \<lparr>vx = 0, vy = 0, vz = 0\<rparr>,
      g_playerAttackSphereRadius = playerAttackSphereRadius defaultGameState,
      g_bossPosition = \<lparr>vx = 0, vy = 0, vz = 0\<rparr>,
      g_bossRotation = \<lparr>ex = 0, ey = 0, ez = 0\<rparr>,
      g_bossCollisionSphereOffset = \<lparr>vx = 0, vy = 0, vz = 0\<rparr>,
      g_bossCollisionSphereRadius = bossCollisionSphereRadius defaultGameState,
      g_bossAttackSphereOffset = \<lparr>vx = 0, vy = 0, vz = 0\<rparr>,
      g_bossAttackSphereRadius = bossAttackSphereRadius defaultGameState,
      g_playerHp = playerHp defaultGameState,
      g_bossHp = bossHp defaultGameState\<rparr>"

definition syncCollisionParameters ::
  "GameStateType \<Rightarrow> VibenRingGlobalState \<Rightarrow> VibenRingGlobalState" where
  "syncCollisionParameters s g =
     g\<lparr>g_playerCollisionSphereOffset := playerCollisionSphereOffset s,
       g_playerCollisionSphereRadius := playerCollisionSphereRadius s,
       g_playerAttackSphereOffset := playerAttackSphereOffset s,
       g_playerAttackSphereRadius := playerAttackSphereRadius s,
       g_bossCollisionSphereOffset := bossCollisionSphereOffset s,
       g_bossCollisionSphereRadius := bossCollisionSphereRadius s,
       g_bossAttackSphereOffset := bossAttackSphereOffset s,
       g_bossAttackSphereRadius := bossAttackSphereRadius s\<rparr>"

text \<open>The boss AI state of src/app/utils/bossAI.ts; the world below holds one.\<close>

record BossAIState =
  isAttacking :: bool
  lastAttackTime :: real
  attackCooldown :: real
  attackRange :: real
  moveSpeed :: real
  turnSpeed :: real
  currentAction :: string

definition initBossAIState :: BossAIState where
  "initBossAIState =
     \<lparr>isAttacking = False,
      lastAttackTime = 0,
      attackCooldown = 2000,
      attackRange = 10,
      moveSpeed = 3.5,
      turnSpeed = 2.5,
      currentAction = ''idle''\<rparr>"

text \<open>
  The callbacks the two controllers hand to \<open>setTimeout\<close>.  A backup timeout of the character
  carries the number of the attack it belongs to, which identifies the \<open>onFinished\<close> listener
  its closure holds.
\<close>

datatype TimerTask = CharacterDamage | CharacterBackup nat | BossDamage

text \<open>
  The world: everything the simulation code reads and writes.
  \<^item> \<open>state\<close> is the provider's React state as the queued functional updates leave it;
    \<open>vibenRingGlobalState\<close> is the window mirror, \<open>None\<close> while it does not exist.
  \<^item> \<open>bossAIRef\<close> is \<open>bossAIRef.current\<close> of the Boss component; \<open>bossMixerReady\<close> says
    that its \<open>mixerRef.current\<close> and \<open>actionsRef.current.attack\<close> are set;
    \<open>bossOnFinished\<close> counts the registered \<open>onFinished\<close> listeners of the boss;
    \<open>bossTriggerCalls\<close> counts the calls of \<open>triggerBossAttack\<close> (bookkeeping of the
    model, the code has no such counter).
  \<^item> \<open>isAttackingRef\<close> and \<open>lastAttackTimeRef\<close> are the character's refs;
    \<open>characterMixerReady\<close> says that its mixer and attack action are set;
    \<open>characterOnFinished\<close> lists the attacks whose \<open>onFinished\<close> listener is registered,
    \<open>characterAttacks\<close> numbers the attacks; \<open>characterState\<close> is the \<open>state\<close> the click
    handler's closure captured.
  \<^item> \<open>timers\<close> are the pending timeouts with the time they are due, \<open>time\<close> is the clock of
    the event loop in milliseconds.
  \<^item> \<open>dateNow\<close> and \<open>random\<close> are the values the successive calls of \<open>Date.now()\<close> and
    \<open>Math.random()\<close> return; \<open>dateReads\<close> and \<open>randomReads\<close> count the calls made.
\<close>

record World =
  state :: GameStateType
  vibenRingGlobalState :: "VibenRingGlobalState option"
  bossAIRef :: BossAIState
  bossMixerReady :: bool
  bossOnFinished :: nat
  bossTriggerCalls :: nat
  isAttackingRef :: bool
  lastAttackTimeRef :: real
  characterMixerReady :: bool
  characterOnFinished :: "nat list"
  characterAttacks :: nat
  characterState :: GameStateType
  timers :: "(real \<times> TimerTask) list"
  time :: real
  dateNow :: "nat \<Rightarrow> real"
  dateReads :: nat
  random :: "nat \<Rightarrow> real"
  randomReads :: nat

definition Date_now :: "World \<Rightarrow> real \<times> World" where
  "Date_now w = (dateNow w (dateReads w), w\<lparr>dateReads := Suc (dateReads w)\<rparr>)"

definition Math_random :: "World \<Rightarrow> real \<times> World" where
  "Math_random w = (random w (randomReads w), w\<lparr>randomReads := Suc (randomReads w)\<rparr>)"

definition setTimeout :: "TimerTask \<Rightarrow> real \<Rightarrow> World \<Rightarrow> World" where
  "setTimeout task delay w = w\<lparr>timers := timers w @ [(time w + delay, task)]\<rparr>"

subsection \<open>Update functions of the provider\<close>

definition setBossHp :: "real \<Rightarrow> World \<Rightarrow> World" where
  "setBossHp hp w = w\<lparr>state := (state w)\<lparr>bossHp := hp\<rparr>\<rparr>"

definition applyDmgToBoss :: "real \<Rightarrow> World \<Rightarrow> World" where
  "applyDmgToBoss dmg w = w\<lparr>state := (state w)\<lparr>bossHp := max (bossHp (state w) - dmg) 0\<rparr>\<rparr>"

definition setPlayerHp :: "real \<Rightarrow> World \<Rightarrow> World" where
  "setPlayerHp hp w =
     (let w1 = w\<lparr>state := (state w)\<lparr>playerHp := hp\<rparr>\<rparr>
      in case vibenRingGlobalState w1 of
           Some g \<Rightarrow> w1\<lparr>vibenRingGlobalState := Some (g\<lparr>g_playerHp := hp\<rparr>)\<rparr>
         | None \<Rightarrow> w1)"

definition setPlayerStamina :: "real \<Rightarrow> World \<Rightarrow> World" where
  "setPlayerStamina stamina w = w\<lparr>state := (state w)\<lparr>playerStamina := stamina\<rparr>\<rparr>"

definition setPlayerPosition :: "Vector3 \<Rightarrow> World \<Rightarrow> World" where
  "setPlayerPosition position w =
     (let w1 = w\<lparr>state := (state w)\<lparr>playerPosition := position\<rparr>\<rparr>
      in case vibenRingGlobalState w1 of
           Some g \<Rightarrow> w1\<lparr>vibenRingGlobalState := Some (g\<lparr>g_playerPosition := position\<rparr>)\<rparr>
         | None \<Rightarrow> w1)"

definition setPlayerRotation :: "Euler \<Rightarrow> World \<Rightarrow> World" where
  "setPlayerRotation rotation w =
     (let w1 = w\<lparr>state := (state w)\<lparr>playerRotation := rotation\<rparr>\<rparr>
      in case vibenRingGlobalState w1 of
           Some g \<Rightarrow> w1\<lparr>vibenRingGlobalState := Some (g\<lparr>g_playerRotation := rotation\<rparr>)\<rparr>
         | None \<Rightarrow> w1)"

definition setBossPosition :: "Vector3 \<Rightarrow> World \<Rightarrow> World" where
  "setBossPosition position w =
     (let w1 = w\<lparr>state := (state w)\<lparr>bossPosition := position\<rparr>\<rparr>
      in case vibenRingGlobalState w1 of
           Some g \<Rightarrow> w1\<lparr>vibenRingGlobalState := Some (g\<lparr>g_bossPosition := position\<rparr>)\<rparr>
         | None \<Rightarrow> w1)"

definition setBossRotation :: "Euler \<Rightarrow> World \<Rightarrow> World" where
  "setBossRotation rotation w =
     (let w1 = w\<lparr>state := (state w)\<lparr>bossRotation := rotation\<rparr>\<rparr>
      in case vibenRingGlobalState w1 of
           Some g \<Rightarrow> w1\<lparr>vibenRingGlobalState := Some (g\<lparr>g_bossRotation := rotation\<rparr>)\<rparr>
         | None \<Rightarrow> w1)"

definition resetGameState :: "World \<Rightarrow> World" where
  "resetGameState w = w\<lparr>state := defaultGameState\<rparr>"

section \<open>Boss AI policy (src/app/utils/bossAI.ts)\<close>

definition distanceToPlayer :: "Vector3 \<Rightarrow> Vector3 \<Rightarrow> real" where
  "distanceToPlayer bossPosition' playerPosition' = distanceTo bossPosition' playerPosition'"

definition directionToPlayer :: "Vector3 \<Rightarrow> Vector3 \<Rightarrow> Vector3" where
  "directionToPlayer bossPosition' playerPosition' =
     (let direction = \<lparr>vx = vx playerPosition' - vx bossPosition',
                       vy = 0,
                       vz = vz playerPosition' - vz bossPosition'\<rparr>
      in normalize direction)"

definition angleToFacePlayer :: "Vector3 \<Rightarrow> Vector3 \<Rightarrow> real" where
  "angleToFacePlayer bossPosition' playerPosition' =
     (let direction = directionToPlayer bossPosition' playerPosition'
      in atan2 (vx direction) (vz direction))"

text \<open>
  The two loops that bring an angle difference back into \<open>[-\<pi>, \<pi>]\<close>:
  \<open>while (angleDiff > Math.PI) angleDiff -= Math.PI * 2\<close> and
  \<open>while (angleDiff < -Math.PI) angleDiff += Math.PI * 2\<close>.
\<close>

function wrapAbovePi :: "real \<Rightarrow> real" where
  "wrapAbovePi angleDiff =
     (if angleDiff > pi then wrapAbovePi (angleDiff - pi * 2) else angleDiff)"
  by pat_completeness auto
termination
proof (relation "measure (\<lambda>a. nat \<lceil>(a - pi) / (2 * pi)\<rceil>)")
  show "wf (measure (\<lambda>a. nat \<lceil>(a - pi) / (2 * pi)\<rceil>))" by simp
next
  fix a :: real assume a: "pi < a"
  have "(a - pi * 2 - pi) / (2 * pi) = (a - pi) / (2 * pi) - 1"
    by (simp add: field_simps)
  then have "\<lceil>(a - pi * 2 - pi) / (2 * pi)\<rceil> = \<lceil>(a - pi) / (2 * pi)\<rceil> - 1"
    by simp
  moreover have "0 < (a - pi) / (2 * pi)" using a by simp
  then have "0 < \<lceil>(a - pi) / (2 * pi)\<rceil>" by simp
  ultimately show "(a - pi * 2, a) \<in> measure (\<lambda>a. nat \<lceil>(a - pi) / (2 * pi)\<rceil>)"
    by simp
qed

function wrapBelowPi :: "real \<Rightarrow> real" where
  "wrapBelowPi angleDiff =
     (if angleDiff < - pi then wrapBelowPi (angleDiff + pi * 2) else angleDiff)"
  by pat_completeness auto
termination
proof (relation "measure (\<lambda>a. nat \<lceil>(- pi - a) / (2 * pi)\<rceil>)")
  show "wf (measure (\<lambda>a. nat \<lceil>(- pi - a) / (2 * pi)\<rceil>))" by simp
next
  fix a :: real assume a: "a < - pi"
  have "(- pi - (a + pi * 2)) / (2 * pi) = (- pi - a) / (2 * pi) - 1"
    by (simp add: field_simps)
  then have "\<lceil>(- pi - (a + pi * 2)) / (2 * pi)\<rceil> = \<lceil>(- pi - a) / (2 * pi)\<rceil> - 1"
    by simp
  moreover have "0 < (- pi - a) / (2 * pi)" using a by simp
  then have "0 < \<lceil>(- pi - a) / (2 * pi)\<rceil>" by simp
  ultimately show "(a + pi * 2, a) \<in> measure (\<lambda>a. nat \<lceil>(- pi - a) / (2 * pi)\<rceil>)"
    by simp
qed

declare wrapAbovePi.simps [simp del] wrapBelowPi.simps [simp del]

definition isFacingPlayer :: "Euler \<Rightarrow> Vector3 \<Rightarrow> Vector3 \<Rightarrow> real \<Rightarrow> bool" where
  "isFacingPlayer bossRotation' bossPosition' playerPosition' threshold =
     (let targetAngle = angleToFacePlayer bossPosition' playerPosition';
          currentAngle = ey bossRotation';
          angleDiff = targetAngle - currentAngle;
          angleDiff = wrapAbovePi angleDiff;
          angleDiff = wrapBelowPi angleDiff
      in \<bar>angleDiff\<bar> < threshold)"

subsection \<open>The leaves of the boss tree\<close>

text \<open>
  \<open>createBossBehaviorTree\<close> receives the state snapshot \<open>gameState\<close>, the AI state object (here
  \<open>bossAIRef\<close> of the world), the three callbacks and \<open>delta\<close>.  Its leaves are closures over
  these; each is a definition of its own here and takes what its closure captures.
\<close>

definition inAttackRange :: "GameStateType \<Rightarrow> World BehaviorNode" where
  "inAttackRange gameState = LeafNode CONDITION (\<lambda>w.
     let distance = distanceToPlayer (bossPosition gameState) (playerPosition gameState)
     in (if distance \<le> attackRange (bossAIRef w) then SUCCESS else FAILURE, w))"

definition attackOffCooldown :: "World BehaviorNode" where
  "attackOffCooldown = LeafNode CONDITION (\<lambda>w.
     case Date_now w of (now, w1) \<Rightarrow>
       (if now - lastAttackTime (bossAIRef w1) \<ge> attackCooldown (bossAIRef w1)
        then SUCCESS else FAILURE, w1))"

definition performAttack :: "(World \<Rightarrow> World) \<Rightarrow> World BehaviorNode" where
  "performAttack triggerBossAttack' = LeafNode ACTION (\<lambda>w.
     if \<not> isAttacking (bossAIRef w) then
       (let w1 = w\<lparr>bossAIRef := (bossAIRef w)\<lparr>isAttacking := True\<rparr>\<rparr>
        in case Date_now w1 of (now, w2) \<Rightarrow>
          (let w3 = w2\<lparr>bossAIRef := (bossAIRef w2)\<lparr>lastAttackTime := now\<rparr>\<rparr>;
               w4 = w3\<lparr>bossAIRef := (bossAIRef w3)\<lparr>currentAction := ''attack''\<rparr>\<rparr>;
               w5 = triggerBossAttack' w4
           in (SUCCESS, w5)))
     else (RUNNING, w))"

definition isFacingPlayerNode :: "GameStateType \<Rightarrow> World BehaviorNode" where
  "isFacingPlayerNode gameState = LeafNode CONDITION (\<lambda>w.
     (if isFacingPlayer (bossRotation gameState) (bossPosition gameState)
           (playerPosition gameState) 0.2
      then SUCCESS else FAILURE, w))"

definition turnTowardsPlayer ::
  "GameStateType \<Rightarrow> (Euler \<Rightarrow> World \<Rightarrow> World) \<Rightarrow> real \<Rightarrow> World BehaviorNode" where
  "turnTowardsPlayer gameState setBossRotation' delta = LeafNode ACTION (\<lambda>w.
     let targetAngle = angleToFacePlayer (bossPosition gameState) (playerPosition gameState);
         currentRotation = bossRotation gameState;
         angleDiff = targetAngle - ey currentRotation;
         angleDiff = wrapAbovePi angleDiff;
         angleDiff = wrapBelowPi angleDiff;
         rotationAmount = sgn angleDiff * min \<bar>angleDiff\<bar> (turnSpeed (bossAIRef w) * delta);
         currentRotation = currentRotation\<lparr>ey := ey currentRotation + rotationAmount\<rparr>;
         w1 = setBossRotation' currentRotation w;
         w2 = w1\<lparr>bossAIRef := (bossAIRef w1)\<lparr>currentAction := ''turning''\<rparr>\<rparr>
     in (if \<bar>angleDiff\<bar> < 0.1 then SUCCESS else RUNNING, w2))"

definition moveTowardsPlayer ::
  "GameStateType \<Rightarrow> (Vector3 \<Rightarrow> World \<Rightarrow> World) \<Rightarrow> real \<Rightarrow> World BehaviorNode" where
  "moveTowardsPlayer gameState setBossPosition' delta = LeafNode ACTION (\<lambda>w.
     if isAttacking (bossAIRef w) then (FAILURE, w)
     else
       let direction = directionToPlayer (bossPosition gameState) (playerPosition gameState);
           distance = distanceToPlayer (bossPosition gameState) (playerPosition gameState)
       in if distance \<le> attackRange (bossAIRef w) then
            (SUCCESS, w\<lparr>bossAIRef := (bossAIRef w)\<lparr>currentAction := ''idle''\<rparr>\<rparr>)
          else
            let moveDistance = moveSpeed (bossAIRef w) * delta;
                newPosition = addV (bossPosition gameState) (multiplyScalar direction moveDistance);
                w1 = setBossPosition' newPosition w;
                w2 = w1\<lparr>bossAIRef := (bossAIRef w1)\<lparr>currentAction := ''moving''\<rparr>\<rparr>
            in (if distance \<le> attackRange (bossAIRef w2) then SUCCESS else RUNNING, w2))"

subsection \<open>The tree\<close>

definition attackSequence :: "GameStateType \<Rightarrow> (World \<Rightarrow> World) \<Rightarrow> World BehaviorNode" where
  "attackSequence gameState triggerBossAttack' =
     newCompositeNode SEQUENCE
       [inAttackRange gameState, attackOffCooldown, performAttack triggerBossAttack']"

definition chaseSequence ::
  "GameStateType \<Rightarrow> (Vector3 \<Rightarrow> World \<Rightarrow> World) \<Rightarrow> (Euler \<Rightarrow> World \<Rightarrow> World) \<Rightarrow> real
     \<Rightarrow> World BehaviorNode" where
  "chaseSequence gameState setBossPosition' setBossRotation' delta =
     newCompositeNode SEQUENCE
       [newCompositeNode SELECTOR
          [isFacingPlayerNode gameState, turnTowardsPlayer gameState setBossRotation' delta],
        moveTowardsPlayer gameState setBossPosition' delta]"

definition createBossBehaviorTree ::
  "GameStateType \<Rightarrow> (Vector3 \<Rightarrow> World \<Rightarrow> World) \<Rightarrow> (Euler \<Rightarrow> World \<Rightarrow> World)
     \<Rightarrow> (World \<Rightarrow> World) \<Rightarrow> real \<Rightarrow> World BehaviorNode" where
  "createBossBehaviorTree gameState setBossPosition' setBossRotation' triggerBossAttack' delta =
     (let rootNode = newCompositeNode SELECTOR
        [attackSequence gameState triggerBossAttack',
         chaseSequence gameState setBossPosition' setBossRotation' delta]
      in rootNode)"

section \<open>The boss controller (src/app/components/Boss.tsx)\<close>

text \<open>
  Of \<open>triggerBossAttack\<close> the model keeps what bears on the simulation: the early return when
  the mixer or the attack action is missing, the damage callback scheduled after 1200 ms and
  the registration of the \<open>onFinished\<close> listener.  Starting and fading animations is
  presentation.  The function schedules no other timeout.
\<close>

definition ATTACK_DAMAGE :: real where
  "ATTACK_DAMAGE = 10"

text \<open>The world position of the boss's attack sphere, as the damage callback computes it.\<close>

definition bossAttackSpherePosition :: "VibenRingGlobalState \<Rightarrow> Vector3" where
  "bossAttackSpherePosition g =
     (let bossAttackOffset = g_bossAttackSphereOffset g;
          bossRotationMatrix = makeRotationFromEuler (g_bossRotation g);
          bossAttackOffset = applyMatrix4 bossAttackOffset bossRotationMatrix
      in \<lparr>vx = vx (g_bossPosition g) + vx bossAttackOffset,
          vy = vy (g_bossPosition g) + vy bossAttackOffset,
          vz = vz (g_bossPosition g) - vz bossAttackOffset\<rparr>)"

definition playerCollisionSpherePosition :: "VibenRingGlobalState \<Rightarrow> Vector3" where
  "playerCollisionSpherePosition g =
     \<lparr>vx = vx (g_playerPosition g) + vx (g_playerCollisionSphereOffset g),
      vy = vy (g_playerPosition g) + vy (g_playerCollisionSphereOffset g),
      vz = vz (g_playerPosition g) + vz (g_playerCollisionSphereOffset g)\<rparr>"

text \<open>The callback that \<open>triggerBossAttack\<close> schedules with \<open>setTimeout(..., 1200)\<close>.\<close>

definition bossDamageCallback :: "World \<Rightarrow> World" where
  "bossDamageCallback w =
     (case vibenRingGlobalState w of
        Some g \<Rightarrow>
          (let collision = didSpheresCollide
                 (bossAttackSpherePosition g) (g_bossAttackSphereRadius g)
                 (playerCollisionSpherePosition g) (g_playerCollisionSphereRadius g)
           in if collision \<and> g_playerHp g > 0 then
                (let newPlayerHp = max 0 (g_playerHp g - ATTACK_DAMAGE)
                 in setPlayerHp newPlayerHp w)
              else w)
      | None \<Rightarrow> w)"

definition triggerBossAttack :: "World \<Rightarrow> World" where
  "triggerBossAttack w =
     (let w0 = w\<lparr>bossTriggerCalls := Suc (bossTriggerCalls w)\<rparr>
      in if \<not> bossMixerReady w0 then w0
         else
           (let w1 = setTimeout BossDamage 1200 w0
            in w1\<lparr>bossOnFinished := Suc (bossOnFinished w1)\<rparr>))"

text \<open>
  One \<open>onFinished\<close> listener of the boss, run for the attack action: it stamps the cooldown,
  clears \<open>isAttacking\<close> and removes itself.  When the mixer reports the attack animation
  finished, every registered listener runs.
\<close>

definition bossOnFinishedListener :: "World \<Rightarrow> World" where
  "bossOnFinishedListener w =
     (case Date_now w of (now, w1) \<Rightarrow>
        (let w2 = w1\<lparr>bossAIRef := (bossAIRef w1)\<lparr>lastAttackTime := now\<rparr>\<rparr>;
             w3 = w2\<lparr>bossAIRef := (bossAIRef w2)\<lparr>isAttacking := False\<rparr>\<rparr>;
             w4 = w3\<lparr>bossAIRef := (bossAIRef w3)\<lparr>currentAction := ''idle''\<rparr>\<rparr>
         in w4\<lparr>bossOnFinished := bossOnFinished w4 - 1\<rparr>))"

definition bossAnimationFinished :: "World \<Rightarrow> World" where
  "bossAnimationFinished w = (bossOnFinishedListener ^^ bossOnFinished w) w"

text \<open>
  One tick of the boss root as \<open>useFrame\<close> runs it: the tree is built afresh from the state
  snapshot of the current render, with the provider's setters and \<open>triggerBossAttack\<close>, and
  executed once.
\<close>

definition bossRootTick ::
  "GameStateType \<Rightarrow> real \<Rightarrow> World \<Rightarrow> NodeStatus \<times> World BehaviorNode \<times> World" where
  "bossRootTick gameState delta w =
     execute (createBossBehaviorTree gameState setBossPosition setBossRotation
                triggerBossAttack delta) w"

text \<open>
  The two conditions of the attack branch, as its first two leaves evaluate them: the player
  is within \<open>attackRange\<close> on the snapshot, and the cooldown has elapsed at the next reading of
  the clock.
\<close>

definition playerInRange :: "GameStateType \<Rightarrow> World \<Rightarrow> bool" where
  "playerInRange gameState w \<longleftrightarrow>
     distanceToPlayer (bossPosition gameState) (playerPosition gameState)
       \<le> attackRange (bossAIRef w)"

definition cooldownElapsed :: "World \<Rightarrow> bool" where
  "cooldownElapsed w \<longleftrightarrow>
     dateNow w (dateReads w) - lastAttackTime (bossAIRef w) \<ge> attackCooldown (bossAIRef w)"

text \<open>
  The world as the PerformAttack leaf leaves it, before it calls the trigger, when the boss
  was not attacking: \<open>isAttacking\<close> set, \<open>lastAttackTime\<close> stamped with the clock reading taken,
  \<open>currentAction\<close> set to attack.
\<close>

definition attackStarted :: "World \<Rightarrow> World" where
  "attackStarted w =
     w\<lparr>dateReads := Suc (dateReads w),
       bossAIRef := (bossAIRef w)\<lparr>isAttacking := True,
          lastAttackTime := dateNow w (dateReads w), currentAction := ''attack''\<rparr>\<rparr>"

section \<open>The player controller (the Character component)\<close>

definition ATTACK_COOLDOWN :: real where
  "ATTACK_COOLDOWN = 600"

definition MIN_ATTACK_DAMAGE :: real where
  "MIN_ATTACK_DAMAGE = 69"

definition MAX_ATTACK_DAMAGE :: real where
  "MAX_ATTACK_DAMAGE = 120"

text \<open>
  The world position of the player's attack sphere and of the boss's collision sphere, as
  the damage callback computes them from the window mirror, and as its fallback branch
  computes them from the captured React state.
\<close>

definition playerAttackSpherePosition :: "VibenRingGlobalState \<Rightarrow> Vector3" where
  "playerAttackSpherePosition g =
     (let playerAttackOffset = g_playerAttackSphereOffset g;
          playerRotationMatrix = makeRotationFromEuler (g_playerRotation g);
          playerAttackOffset = applyMatrix4 playerAttackOffset playerRotationMatrix
      in \<lparr>vx = vx (g_playerPosition g) + vx playerAttackOffset,
          vy = vy (g_playerPosition g) + vy playerAttackOffset,
          vz = vz (g_playerPosition g) + vz playerAttackOffset\<rparr>)"

definition bossCollisionSpherePosition :: "VibenRingGlobalState \<Rightarrow> Vector3" where
  "bossCollisionSpherePosition g =
     \<lparr>vx = vx (g_bossPosition g) + vx (g_bossCollisionSphereOffset g),
      vy = vy (g_bossPosition g) + vy (g_bossCollisionSphereOffset g),
      vz = vz (g_bossPosition g) + vz (g_bossCollisionSphereOffset g)\<rparr>"

definition playerAttackSpherePositionFallback :: "GameStateType \<Rightarrow> Vector3" where
  "playerAttackSpherePositionFallback s =
     (let playerAttackOffset = playerAttackSphereOffset s;
          playerRotationMatrix = makeRotationFromEuler (playerRotation s);
          playerAttackOffset = applyMatrix4 playerAttackOffset playerRotationMatrix
      in \<lparr>vx = vx (playerPosition s) + vx playerAttackOffset,
          vy = vy (playerPosition s) + vy playerAttackOffset,
          vz = vz (playerPosition s) + vz playerAttackOffset\<rparr>)"

definition bossCollisionSpherePositionFallback :: "GameStateType \<Rightarrow> Vector3" where
  "bossCollisionSpherePositionFallback s =
     \<lparr>vx = vx (bossPosition s) + vx (bossCollisionSphereOffset s),
      vy = vy (bossPosition s) + vy (bossCollisionSphereOffset s),
      vz = vz (bossPosition s) + vz (bossCollisionSphereOffset s)\<rparr>"

text \<open>The callback that \<open>handleMouseClick\<close> schedules with \<open>setTimeout(..., 500)\<close>.\<close>

definition characterDamageCallback :: "World \<Rightarrow> World" where
  "characterDamageCallback w =
     (case vibenRingGlobalState w of
        Some g \<Rightarrow>
          (let collision = didSpheresCollide
                 (playerAttackSpherePosition g) (g_playerAttackSphereRadius g)
                 (bossCollisionSpherePosition g) (g_bossCollisionSphereRadius g)
           in if collision \<and> g_bossHp g > 0 then
                (case Math_random w of (r, w1) \<Rightarrow>
                   (let dmg = r * (MAX_ATTACK_DAMAGE - MIN_ATTACK_DAMAGE) + MIN_ATTACK_DAMAGE
                    in applyDmgToBoss dmg w1))
              else w)
      | None \<Rightarrow>
          (let s = characterState w;
               collision = didSpheresCollide
                 (playerAttackSpherePositionFallback s) (playerAttackSphereRadius s)
                 (bossCollisionSpherePositionFallback s) (bossCollisionSphereRadius s)
           in if collision \<and> bossHp s > 0 then
                (case Math_random w of (r, w1) \<Rightarrow>
                   (let dmg = r * (MAX_ATTACK_DAMAGE - MIN_ATTACK_DAMAGE) + MIN_ATTACK_DAMAGE
                    in applyDmgToBoss dmg w1))
              else w))"

text \<open>
  The backup timeout of attack \<open>n\<close>: nothing when the character is no longer attacking,
  otherwise it removes the listener of its attack and clears \<open>isAttackingRef\<close>.
\<close>

definition characterBackupCallback :: "nat \<Rightarrow> World \<Rightarrow> World" where
  "characterBackupCallback n w =
     (if \<not> isAttackingRef w then w
      else
        (let w1 = (if characterMixerReady w
                   then w\<lparr>characterOnFinished := removeAll n (characterOnFinished w)\<rparr>
                   else w)
         in w1\<lparr>isAttackingRef := False\<rparr>))"

text \<open>
  \<open>handleMouseClick\<close> for a \<open>mousedown\<close> event of the given button.  An attack that starts
  schedules the damage callback after 500 ms, registers its \<open>onFinished\<close> listener and
  schedules its backup timeout after 700 ms.
\<close>

definition handleMouseClick :: "nat \<Rightarrow> World \<Rightarrow> World" where
  "handleMouseClick button w =
     (if button \<noteq> 0 then w
      else case Date_now w of (now, w1) \<Rightarrow>
        if isAttackingRef w1 \<or> now - lastAttackTimeRef w1 < ATTACK_COOLDOWN
           \<or> \<not> characterMixerReady w1
        then w1
        else
          (let n = characterAttacks w1;
               w2 = w1\<lparr>isAttackingRef := True, lastAttackTimeRef := now,
                        characterAttacks := Suc n\<rparr>;
               w3 = setTimeout CharacterDamage 500 w2;
               w4 = w3\<lparr>characterOnFinished := characterOnFinished w3 @ [n]\<rparr>
           in setTimeout (CharacterBackup n) 700 w4))"

text \<open>
  The mixer reports the character's attack animation finished: every registered
  \<open>onFinished\<close> listener clears \<open>isAttackingRef\<close> and removes itself.
\<close>

definition characterAnimationFinished :: "World \<Rightarrow> World" where
  "characterAnimationFinished w =
     (if characterOnFinished w = [] then w
      else w\<lparr>isAttackingRef := False, characterOnFinished := []\<rparr>)"

section \<open>Attack resolution: the overlap tests\<close>

text \<open>
  The three overlap tests the damage callbacks make, named: the boss's attack sphere against
  the player's collision sphere, the player's attack sphere against the boss's collision
  sphere, and the latter on the captured React state in the fallback branch.
\<close>

definition bossAttackOverlaps :: "VibenRingGlobalState \<Rightarrow> bool" where
  "bossAttackOverlaps g =
     didSpheresCollide (bossAttackSpherePosition g) (g_bossAttackSphereRadius g)
       (playerCollisionSpherePosition g) (g_playerCollisionSphereRadius g)"

definition playerAttackOverlaps :: "VibenRingGlobalState \<Rightarrow> bool" where
  "playerAttackOverlaps g =
     didSpheresCollide (playerAttackSpherePosition g) (g_playerAttackSphereRadius g)
       (bossCollisionSpherePosition g) (g_bossCollisionSphereRadius g)"

definition playerAttackOverlapsFallback :: "GameStateType \<Rightarrow> bool" where
  "playerAttackOverlapsFallback s =
     didSpheresCollide (playerAttackSpherePositionFallback s) (playerAttackSphereRadius s)
       (bossCollisionSpherePositionFallback s) (bossCollisionSphereRadius s)"

text \<open>The damage of a player's hit for the reading \<open>r\<close> of \<open>Math.random()\<close>.\<close>

definition playerDamage :: "real \<Rightarrow> real" where
  "playerDamage r = r * (MAX_ATTACK_DAMAGE - MIN_ATTACK_DAMAGE) + MIN_ATTACK_DAMAGE"

section \<open>The event loop\<close>

text \<open>
  The browser runs one task at a time.  A timeout runs when the clock has reached the time it
  is due, the earlier one first and, of two due at the same time, the one set first.  A task
  of the simulation sets no timeout while it runs as a timeout, so the due timeouts can be
  taken off the list at once and run in order.
\<close>

definition runTask :: "TimerTask \<Rightarrow> World \<Rightarrow> World" where
  "runTask task w =
     (case task of
        CharacterDamage \<Rightarrow> characterDamageCallback w
      | CharacterBackup n \<Rightarrow> characterBackupCallback n w
      | BossDamage \<Rightarrow> bossDamageCallback w)"

definition advanceTo :: "real \<Rightarrow> World \<Rightarrow> World" where
  "advanceTo t w =
     (if t \<le> time w then w
      else
        (let due = sort_key fst (filter (\<lambda>p. fst p \<le> t) (timers w));
             rest = filter (\<lambda>p. \<not> fst p \<le> t) (timers w);
             w1 = foldl (\<lambda>u p. runTask (snd p) (u\<lparr>time := fst p\<rparr>)) (w\<lparr>timers := rest\<rparr>) due
         in w1\<lparr>time := t\<rparr>))"

text \<open>
  What can happen to the world: a mouse button goes down, the mixer reports an attack
  animation finished, the boss root is ticked with a state snapshot and a delta, time passes.
\<close>

datatype Event =
    MouseDown nat
  | CharacterFinished
  | BossFinished
  | BossTick GameStateType real
  | Advance real

fun step :: "World \<Rightarrow> Event \<Rightarrow> World" where
  "step w (MouseDown button) = handleMouseClick button w"
| "step w CharacterFinished = characterAnimationFinished w"
| "step w BossFinished = bossAnimationFinished w"
| "step w (BossTick gameState delta) = snd (snd (bossRootTick gameState delta w))"
| "step w (Advance t) = advanceTo t w"

definition run :: "Event list \<Rightarrow> World \<Rightarrow> World" where
  "run es w = foldl step w es"

text \<open>
  The world when the match starts: the provider and both controllers are mounted (both
  effects of the provider have run), models and animations are loaded, nothing is pending.  The clock and the two streams of readings are
  parameters.
\<close>

definition startMirror :: VibenRingGlobalState where
  "startMirror = syncCollisionParameters defaultGameState initialGlobalState"

definition initialWorld :: "(nat \<Rightarrow> real) \<Rightarrow> (nat \<Rightarrow> real) \<Rightarrow> World" where
  "initialWorld clock rnd =
     \<lparr>state = defaultGameState,
      vibenRingGlobalState = Some startMirror,
      bossAIRef = initBossAIState,
      bossMixerReady = True,
      bossOnFinished = 0,
      bossTriggerCalls = 0,
      isAttackingRef = False,
      lastAttackTimeRef = 0,
      characterMixerReady = True,
      characterOnFinished = [],
      characterAttacks = 0,
      characterState = defaultGameState,
      timers = [],
      time = 0,
      dateNow = clock,
      dateReads = 0,
      random = rnd,
      randomReads = 0\<rparr>"

text \<open>A start of the match in which every reading of the clock and of the random source is 0.\<close>

definition zeroReadings :: "nat \<Rightarrow> real" where
  "zeroReadings n = 0"

definition startWorld :: World where
  "startWorld = initialWorld zeroReadings zeroReadings"

text \<open>
  The mirror after the boss has been moved back to its default position \<open>(0, 0, 20)\<close> and
  turned to its default yaw \<open>\<pi>\<close>, facing a player at the origin.
\<close>

definition turnedGlobalState :: VibenRingGlobalState where
  "turnedGlobalState =
     startMirror
       \<lparr>g_bossPosition := \<lparr>vx = 0, vy = 0, vz = 20\<rparr>,
        g_bossRotation := \<lparr>ex = 0, ey = pi, ez = 0\<rparr>\<rparr>"

text \<open>
  A boss that has come within reach: the snapshot has the boss one unit in front of the player
  and facing it; the clock reads 5000, 5001, 5002 and so on, one millisecond more at each call.
\<close>

definition attackClock :: "nat \<Rightarrow> real" where
  "attackClock n = 5000 + real n"

definition closeGameState :: GameStateType where
  "closeGameState = defaultGameState\<lparr>bossPosition := \<lparr>vx = 0, vy = 0, vz = 1\<rparr>\<rparr>"

definition closeWorld :: World where
  "closeWorld = (initialWorld attackClock zeroReadings)\<lparr>state := closeGameState\<rparr>"

text \<open>The start of a match in a window that has no mirror.\<close>

definition mirrorlessWorld :: World where
  "mirrorlessWorld = startWorld\<lparr>vibenRingGlobalState := None\<rparr>"

text \<open>
  The boss has walked straight up to a player who stays at the origin: the mirror has the boss
  ten units in front of the player, and the rotation the mirror was created with.
\<close>

definition reachWorld :: World where
  "reachWorld =
     startWorld\<lparr>vibenRingGlobalState :=
       Some (startMirror\<lparr>g_bossPosition := \<lparr>vx = 0, vy = 0, vz = 10\<rparr>\<rparr>)\<rparr>"

text \<open>
  The worlds a match can be in keep the window mirror, its player HP equal to the store's, its
  boss HP at the 2000 it was created with, and the store's boss HP above or at 0.
\<close>

definition mirrorInSync :: "World \<Rightarrow> bool" where
  "mirrorInSync w \<longleftrightarrow>
     (\<exists>g. vibenRingGlobalState w = Some g \<and> g_playerHp g = playerHp (state w)
          \<and> g_bossHp g = 2000)
     \<and> 0 \<le> bossHp (state w)"



text \<open>
  The same boss and world, after the player has stepped one unit to the side: the player is
  still within reach, the boss no longer faces it.
\<close>

definition sideGameState :: GameStateType where
  "sideGameState = closeGameState\<lparr>playerPosition := \<lparr>vx = 1, vy = 0, vz = 1\<rparr>\<rparr>"

text \<open>
  The attack sphere of the boss where the specification places it, at the owner's position
  plus the offset turned by the owner's yaw, and the overlap test made on that sphere.  These
  two follow the specification, not the code; the code's own are \<open>bossAttackSpherePosition\<close>
  and \<open>bossAttackOverlaps\<close>.
\<close>

definition bossAttackSphereBySpec :: "VibenRingGlobalState \<Rightarrow> Vector3" where
  "bossAttackSphereBySpec g =
     addV (g_bossPosition g) (rotateYaw (ey (g_bossRotation g)) (g_bossAttackSphereOffset g))"

definition bossAttackOverlapsBySpec :: "VibenRingGlobalState \<Rightarrow> bool" where
  "bossAttackOverlapsBySpec g =
     didSpheresCollide (bossAttackSphereBySpec g) (g_bossAttackSphereRadius g)
       (playerCollisionSpherePosition g) (g_playerCollisionSphereRadius g)"

text \<open>
  Three worlds for the damage callbacks.  The boss stands at \<open>(0, 0, 20)\<close> with yaw \<open>\<pi>\<close>, so
  that its attack sphere lies ten units in front of it, around \<open>(0, 1.5, 10)\<close>: in the first
  world the player stands there, at \<open>(0, 0, 10)\<close>, in the second the player stands ten
  units behind the boss, at \<open>(0, 0, 30)\<close>.  The third world is the start of a match with the
  boss HP of the store brought down to 0; the mirror still has the 2000 it was created with.
\<close>

definition frontMirror :: VibenRingGlobalState where
  "frontMirror = turnedGlobalState\<lparr>g_playerPosition := \<lparr>vx = 0, vy = 0, vz = 10\<rparr>\<rparr>"

definition behindMirror :: VibenRingGlobalState where
  "behindMirror = turnedGlobalState\<lparr>g_playerPosition := \<lparr>vx = 0, vy = 0, vz = 30\<rparr>\<rparr>"

definition frontWorld :: World where
  "frontWorld = startWorld\<lparr>vibenRingGlobalState := Some frontMirror\<rparr>"

definition behindWorld :: World where
  "behindWorld = startWorld\<lparr>vibenRingGlobalState := Some behindMirror\<rparr>"

definition deadBossWorld :: World where
  "deadBossWorld = startWorld\<lparr>state := (state startWorld)\<lparr>bossHp := 0\<rparr>\<rparr>"

section \<open>Properties of the behavior tree engine\<close>

lemma execute_leaf:
  "execute (LeafNode t action) w = (fst (action w), LeafNode t action, snd (action w))"
  by (simp add: execute.simps split: prod.splits)

lemma execute_selector:
  "selector_loop cs (startCursor cs cur) w = (st, cs', cur', w') \<Longrightarrow>
   execute (CompositeNode SELECTOR cs cur) w = (st, CompositeNode SELECTOR cs' cur', w')"
  by (simp add: execute.simps startCursor_def Let_def)

lemma execute_sequence:
  "sequence_loop cs (startCursor cs cur) w = (st, cs', cur', w') \<Longrightarrow>
   execute (CompositeNode SEQUENCE cs cur) w = (st, CompositeNode SEQUENCE cs' cur', w')"
  by (simp add: execute.simps startCursor_def Let_def)

lemma startCursor_le: "startCursor cs cur \<le> length cs"
  by (simp add: startCursor_def)

lemma selector_loop_done: "length cs \<le> i \<Longrightarrow> selector_loop cs i w = (FAILURE, cs, 0, w)"
  by (subst selector_loop.simps) simp

lemma selector_loop_step:
  "i < length cs \<Longrightarrow> execute (cs ! i) w = (s, c', w1) \<Longrightarrow>
   selector_loop cs i w =
     (if s = RUNNING then (RUNNING, cs[i := c'], i, w1)
      else if s = SUCCESS then (SUCCESS, cs[i := c'], 0, w1)
      else selector_loop (cs[i := c']) (i + 1) w1)"
  by (subst selector_loop.simps) simp

lemma sequence_loop_done: "length cs \<le> i \<Longrightarrow> sequence_loop cs i w = (SUCCESS, cs, 0, w)"
  by (subst sequence_loop.simps) simp

lemma sequence_loop_step:
  "i < length cs \<Longrightarrow> execute (cs ! i) w = (s, c', w1) \<Longrightarrow>
   sequence_loop cs i w =
     (if s = RUNNING then (RUNNING, cs[i := c'], i, w1)
      else if s = FAILURE then (FAILURE, cs[i := c'], 0, w1)
      else sequence_loop (cs[i := c']) (i + 1) w1)"
  by (subst sequence_loop.simps) simp

text \<open>
  What one run of the selector loop from cursor \<open>i\<close> does: it stops at some child \<open>k\<close>; the
  children \<open>i..<k\<close> were executed in order, each on the world its predecessor left (\<open>\<sigma> j\<close> is
  the world child \<open>j\<close> saw) and each returned FAILURE; no other child was touched.
\<close>

lemma selector_loop_spec:
  assumes "selector_loop cs i w = (st, cs', cur', w')" and "i \<le> length cs"
  shows "\<exists>k \<sigma>. i \<le> k \<and> k \<le> length cs \<and> length cs' = length cs \<and> \<sigma> i = w
     \<and> (\<forall>j<length cs. j < i \<or> k < j \<longrightarrow> cs' ! j = cs ! j)
     \<and> (\<forall>j. i \<le> j \<and> j < k \<longrightarrow> execute (cs ! j) (\<sigma> j) = (FAILURE, cs' ! j, \<sigma> (Suc j)))
     \<and> (if k < length cs
          then execute (cs ! k) (\<sigma> k) = (st, cs' ! k, w')
               \<and> (st = RUNNING \<and> cur' = k \<or> st = SUCCESS \<and> cur' = 0)
          else st = FAILURE \<and> cur' = 0 \<and> w' = \<sigma> k)"
  using assms
proof (induction "length cs - i" arbitrary: cs i w)
  case 0
  then have "i = length cs" by simp
  with "0.prems" have r: "st = FAILURE" "cs' = cs" "cur' = 0" "w' = w"
    by (simp_all add: selector_loop_done)
  show ?case
    by (rule exI [of _ i], rule exI [of _ "\<lambda>_. w"]) (use r \<open>i = length cs\<close> in auto)
next
  case (Suc n)
  then have lt: "i < length cs" by simp
  obtain s c' w1 where ex: "execute (cs ! i) w = (s, c', w1)"
    by (metis prod_cases3)
  show ?case
  proof (cases "s = FAILURE")
    case False
    have step: "selector_loop cs i w =
        (if s = RUNNING then (RUNNING, cs[i := c'], i, w1) else (SUCCESS, cs[i := c'], 0, w1))"
      using False selector_loop_step [OF lt ex] by (cases s) simp_all
    have r: "st = s \<and> cs' = cs[i := c'] \<and> w' = w1
        \<and> (s = RUNNING \<and> cur' = i \<or> s = SUCCESS \<and> cur' = 0)"
      using False Suc.prems(1) unfolding step by (cases s) auto
    have vac: "\<And>j. \<not> (i \<le> j \<and> j < i)" by simp
    show ?thesis
      apply (rule exI [of _ i], rule exI [of _ "\<lambda>_. w"])
      using r lt ex by (simp add: vac)
  next
    case True
    with Suc.prems(1) lt ex
    have rec: "selector_loop (cs[i := c']) (Suc i) w1 = (st, cs', cur', w')"
      by (simp add: selector_loop_step [OF lt ex])
    have "n = length (cs[i := c']) - Suc i" using Suc.hyps(2) by simp
    from Suc.hyps(1) [OF this rec] lt
    obtain k \<sigma> where k: "Suc i \<le> k" "k \<le> length cs" "length cs' = length cs" "\<sigma> (Suc i) = w1"
      and same: "\<forall>j<length cs. j < Suc i \<or> k < j \<longrightarrow> cs' ! j = cs[i := c'] ! j"
      and fails: "\<forall>j. Suc i \<le> j \<and> j < k \<longrightarrow>
           execute (cs[i := c'] ! j) (\<sigma> j) = (FAILURE, cs' ! j, \<sigma> (Suc j))"
      and last: "if k < length cs
          then execute (cs[i := c'] ! k) (\<sigma> k) = (st, cs' ! k, w')
               \<and> (st = RUNNING \<and> cur' = k \<or> st = SUCCESS \<and> cur' = 0)
          else st = FAILURE \<and> cur' = 0 \<and> w' = \<sigma> k"
      by auto
    have ci: "cs' ! i = c'" using same lt by simp
    let ?\<sigma> = "\<sigma>(i := w)"
    have 1: "\<forall>j<length cs. j < i \<or> k < j \<longrightarrow> cs' ! j = cs ! j"
      using same k(1) by auto
    have 2: "\<forall>j. i \<le> j \<and> j < k \<longrightarrow> execute (cs ! j) (?\<sigma> j) = (FAILURE, cs' ! j, ?\<sigma> (Suc j))"
    proof (intro allI impI)
      fix j assume j: "i \<le> j \<and> j < k"
      show "execute (cs ! j) (?\<sigma> j) = (FAILURE, cs' ! j, ?\<sigma> (Suc j))"
      proof (cases "j = i")
        case True
        then show ?thesis using ex \<open>s = FAILURE\<close> ci k(4) by simp
      next
        case False
        with j have "Suc i \<le> j \<and> j < k" by simp
        with fails have "execute (cs[i := c'] ! j) (\<sigma> j) = (FAILURE, cs' ! j, \<sigma> (Suc j))"
          by blast
        with False j show ?thesis by simp
      qed
    qed
    have 3: "if k < length cs
          then execute (cs ! k) (?\<sigma> k) = (st, cs' ! k, w')
               \<and> (st = RUNNING \<and> cur' = k \<or> st = SUCCESS \<and> cur' = 0)
          else st = FAILURE \<and> cur' = 0 \<and> w' = ?\<sigma> k"
    proof (cases "k < length cs")
      case True
      with last have "execute (cs[i := c'] ! k) (\<sigma> k) = (st, cs' ! k, w')
               \<and> (st = RUNNING \<and> cur' = k \<or> st = SUCCESS \<and> cur' = 0)" by simp
      moreover have "cs[i := c'] ! k = cs ! k" "?\<sigma> k = \<sigma> k" using k(1) by simp_all
      ultimately show ?thesis using True by simp
    next
      case False
      with last have "st = FAILURE \<and> cur' = 0 \<and> w' = \<sigma> k" by simp
      moreover have "?\<sigma> k = \<sigma> k" using k(1) by simp
      ultimately show ?thesis using False by simp
    qed
    have 0: "i \<le> k" "k \<le> length cs" "length cs' = length cs" "?\<sigma> i = w"
      using k by simp_all
    show ?thesis
      using 0 1 2 3
      by - (rule exI [of _ k], rule exI [of _ ?\<sigma>], (intro conjI; assumption))
  qed
qed

text \<open>The sequence loop, with SUCCESS and FAILURE exchanged.\<close>

lemma sequence_loop_spec:
  assumes "sequence_loop cs i w = (st, cs', cur', w')" and "i \<le> length cs"
  shows "\<exists>k \<sigma>. i \<le> k \<and> k \<le> length cs \<and> length cs' = length cs \<and> \<sigma> i = w
     \<and> (\<forall>j<length cs. j < i \<or> k < j \<longrightarrow> cs' ! j = cs ! j)
     \<and> (\<forall>j. i \<le> j \<and> j < k \<longrightarrow> execute (cs ! j) (\<sigma> j) = (SUCCESS, cs' ! j, \<sigma> (Suc j)))
     \<and> (if k < length cs
          then execute (cs ! k) (\<sigma> k) = (st, cs' ! k, w')
               \<and> (st = RUNNING \<and> cur' = k \<or> st = FAILURE \<and> cur' = 0)
          else st = SUCCESS \<and> cur' = 0 \<and> w' = \<sigma> k)"
  using assms
proof (induction "length cs - i" arbitrary: cs i w)
  case 0
  then have "i = length cs" by simp
  with "0.prems" have r: "st = SUCCESS" "cs' = cs" "cur' = 0" "w' = w"
    by (simp_all add: sequence_loop_done)
  show ?case
    by (rule exI [of _ i], rule exI [of _ "\<lambda>_. w"]) (use r \<open>i = length cs\<close> in auto)
next
  case (Suc n)
  then have lt: "i < length cs" by simp
  obtain s c' w1 where ex: "execute (cs ! i) w = (s, c', w1)"
    by (metis prod_cases3)
  show ?case
  proof (cases "s = SUCCESS")
    case False
    have step: "sequence_loop cs i w =
        (if s = RUNNING then (RUNNING, cs[i := c'], i, w1) else (FAILURE, cs[i := c'], 0, w1))"
      using False sequence_loop_step [OF lt ex] by (cases s) simp_all
    have r: "st = s \<and> cs' = cs[i := c'] \<and> w' = w1
        \<and> (s = RUNNING \<and> cur' = i \<or> s = FAILURE \<and> cur' = 0)"
      using False Suc.prems(1) unfolding step by (cases s) auto
    have vac: "\<And>j. \<not> (i \<le> j \<and> j < i)" by simp
    show ?thesis
      apply (rule exI [of _ i], rule exI [of _ "\<lambda>_. w"])
      using r lt ex by (simp add: vac)
  next
    case True
    with Suc.prems(1) lt ex
    have rec: "sequence_loop (cs[i := c']) (Suc i) w1 = (st, cs', cur', w')"
      by (simp add: sequence_loop_step [OF lt ex])
    have "n = length (cs[i := c']) - Suc i" using Suc.hyps(2) by simp
    from Suc.hyps(1) [OF this rec] lt
    obtain k \<sigma> where k: "Suc i \<le> k" "k \<le> length cs" "length cs' = length cs" "\<sigma> (Suc i) = w1"
      and same: "\<forall>j<length cs. j < Suc i \<or> k < j \<longrightarrow> cs' ! j = cs[i := c'] ! j"
      and succs: "\<forall>j. Suc i \<le> j \<and> j < k \<longrightarrow>
           execute (cs[i := c'] ! j) (\<sigma> j) = (SUCCESS, cs' ! j, \<sigma> (Suc j))"
      and last: "if k < length cs
          then execute (cs[i := c'] ! k) (\<sigma> k) = (st, cs' ! k, w')
               \<and> (st = RUNNING \<and> cur' = k \<or> st = FAILURE \<and> cur' = 0)
          else st = SUCCESS \<and> cur' = 0 \<and> w' = \<sigma> k"
      by auto
    have ci: "cs' ! i = c'" using same lt by simp
    let ?\<sigma> = "\<sigma>(i := w)"
    have 1: "\<forall>j<length cs. j < i \<or> k < j \<longrightarrow> cs' ! j = cs ! j"
      using same k(1) by auto
    have 2: "\<forall>j. i \<le> j \<and> j < k \<longrightarrow> execute (cs ! j) (?\<sigma> j) = (SUCCESS, cs' ! j, ?\<sigma> (Suc j))"
    proof (intro allI impI)
      fix j assume j: "i \<le> j \<and> j < k"
      show "execute (cs ! j) (?\<sigma> j) = (SUCCESS, cs' ! j, ?\<sigma> (Suc j))"
      proof (cases "j = i")
        case True
        then show ?thesis using ex \<open>s = SUCCESS\<close> ci k(4) by simp
      next
        case False
        with j have "Suc i \<le> j \<and> j < k" by simp
        with succs have "execute (cs[i := c'] ! j) (\<sigma> j) = (SUCCESS, cs' ! j, \<sigma> (Suc j))"
          by blast
        with False j show ?thesis by simp
      qed
    qed
    have 3: "if k < length cs
          then execute (cs ! k) (?\<sigma> k) = (st, cs' ! k, w')
               \<and> (st = RUNNING \<and> cur' = k \<or> st = FAILURE \<and> cur' = 0)
          else st = SUCCESS \<and> cur' = 0 \<and> w' = ?\<sigma> k"
    proof (cases "k < length cs")
      case True
      with last have "execute (cs[i := c'] ! k) (\<sigma> k) = (st, cs' ! k, w')
               \<and> (st = RUNNING \<and> cur' = k \<or> st = FAILURE \<and> cur' = 0)" by simp
      moreover have "cs[i := c'] ! k = cs ! k" "?\<sigma> k = \<sigma> k" using k(1) by simp_all
      ultimately show ?thesis using True by simp
    next
      case False
      with last have "st = SUCCESS \<and> cur' = 0 \<and> w' = \<sigma> k" by simp
      moreover have "?\<sigma> k = \<sigma> k" using k(1) by simp
      ultimately show ?thesis using False by simp
    qed
    have 0: "i \<le> k" "k \<le> length cs" "length cs' = length cs" "?\<sigma> i = w"
      using k by simp_all
    show ?thesis
      using 0 1 2 3
      by - (rule exI [of _ k], rule exI [of _ ?\<sigma>], (intro conjI; assumption))
  qed
qed

text \<open>
  A property of the world that every leaf of a tree preserves is preserved by a tick of the
  tree, whatever the cursors are.
\<close>

lemma execute_composite_world:
  "snd (snd (execute (CompositeNode t cs cur) w)) =
     (if t = SELECTOR then snd (snd (snd (selector_loop cs (startCursor cs cur) w)))
      else if t = SEQUENCE then snd (snd (snd (sequence_loop cs (startCursor cs cur) w)))
      else w)"
  by (simp add: execute.simps startCursor_def Let_def split: prod.splits)

lemma engine_invariant:
  fixes Inv :: "'s \<Rightarrow> bool"
  shows "(\<forall>a \<in> leafActions n. \<forall>u. Inv u \<longrightarrow> Inv (snd (a u))) \<longrightarrow> Inv w
           \<longrightarrow> Inv (snd (snd (execute n w)))"
    and "(\<forall>j. i \<le> j \<and> j < length cs \<longrightarrow> (\<forall>a \<in> leafActions (cs ! j). \<forall>u. Inv u \<longrightarrow> Inv (snd (a u))))
           \<longrightarrow> Inv w \<longrightarrow> Inv (snd (snd (snd (selector_loop cs i w))))"
    and "(\<forall>j. i' \<le> j \<and> j < length cs' \<longrightarrow> (\<forall>a \<in> leafActions (cs' ! j). \<forall>u. Inv u \<longrightarrow> Inv (snd (a u))))
           \<longrightarrow> Inv w' \<longrightarrow> Inv (snd (snd (snd (sequence_loop cs' i' w'))))"
proof (induction n w and cs i w and cs' i' w' rule: execute_selector_loop_sequence_loop.induct)
  case (1 t action w)
  show ?case by (simp add: execute_leaf)
next
  case (2 t children currentChild w)
  have all: "(\<forall>a \<in> leafActions (CompositeNode t children currentChild). \<forall>u. Inv u \<longrightarrow> Inv (snd (a u)))
     \<Longrightarrow> (\<forall>j. k \<le> j \<and> j < length children \<longrightarrow>
            (\<forall>a \<in> leafActions (children ! j). \<forall>u. Inv u \<longrightarrow> Inv (snd (a u))))" for k
    by (auto dest: nth_mem)
  show ?case
  proof (intro impI)
    assume l: "\<forall>a \<in> leafActions (CompositeNode t children currentChild). \<forall>u. Inv u \<longrightarrow> Inv (snd (a u))"
      and w: "Inv w"
    show "Inv (snd (snd (execute (CompositeNode t children currentChild) w)))"
    proof (cases "t = SELECTOR")
      case True
      from "2.IH"(1) [OF _ True, of "startCursor children currentChild"] all [OF l] w
      show ?thesis by (simp add: execute_composite_world True startCursor_def)
    next
      case False
      show ?thesis
      proof (cases "t = SEQUENCE")
        case True
        from "2.IH"(2) [OF _ False True, of "startCursor children currentChild"] all [OF l] w
        show ?thesis by (simp add: execute_composite_world True startCursor_def)
      next
        case notseq: False
        show ?thesis using False notseq w by (simp add: execute_composite_world)
      qed
    qed
  qed
next
  case (3 children currentChild w)
  show ?case
  proof (intro impI)
    assume l: "\<forall>j. currentChild \<le> j \<and> j < length children \<longrightarrow>
        (\<forall>a \<in> leafActions (children ! j). \<forall>u. Inv u \<longrightarrow> Inv (snd (a u)))"
      and w: "Inv w"
    show "Inv (snd (snd (snd (selector_loop children currentChild w))))"
    proof (cases "currentChild < length children")
      case False
      then show ?thesis using w by (simp add: selector_loop_done)
    next
      case True
      obtain s c' w1 where ex: "execute (children ! currentChild) w = (s, c', w1)"
        by (metis prod_cases3)
      have "\<forall>a \<in> leafActions (children ! currentChild). \<forall>u. Inv u \<longrightarrow> Inv (snd (a u))"
        using l True by blast
      with "3.IH"(1) [OF True] w ex have w1: "Inv w1" by simp
      show ?thesis
      proof (cases "s = FAILURE")
        case False
        then show ?thesis using w1 selector_loop_step [OF True ex] by (cases s) simp_all
      next
        case fail: True
        have l': "\<forall>j. currentChild + 1 \<le> j \<and> j < length (children[currentChild := c']) \<longrightarrow>
            (\<forall>a \<in> leafActions (children[currentChild := c'] ! j). \<forall>u. Inv u \<longrightarrow> Inv (snd (a u)))"
          using l by (simp add: nth_list_update) (metis Suc_leD)
        from "3.IH"(2) [OF True ex [symmetric] refl] fail l' w1
        have "Inv (snd (snd (snd (selector_loop (children[currentChild := c']) (currentChild + 1) w1))))"
          by simp
        then show ?thesis using selector_loop_step [OF True ex] fail by simp
      qed
    qed
  qed
next
  case (4 children currentChild w)
  show ?case
  proof (intro impI)
    assume l: "\<forall>j. currentChild \<le> j \<and> j < length children \<longrightarrow>
        (\<forall>a \<in> leafActions (children ! j). \<forall>u. Inv u \<longrightarrow> Inv (snd (a u)))"
      and w: "Inv w"
    show "Inv (snd (snd (snd (sequence_loop children currentChild w))))"
    proof (cases "currentChild < length children")
      case False
      then show ?thesis using w by (simp add: sequence_loop_done)
    next
      case True
      obtain s c' w1 where ex: "execute (children ! currentChild) w = (s, c', w1)"
        by (metis prod_cases3)
      have "\<forall>a \<in> leafActions (children ! currentChild). \<forall>u. Inv u \<longrightarrow> Inv (snd (a u))"
        using l True by blast
      with "4.IH"(1) [OF True] w ex have w1: "Inv w1" by simp
      show ?thesis
      proof (cases "s = SUCCESS")
        case False
        then show ?thesis using w1 sequence_loop_step [OF True ex] by (cases s) simp_all
      next
        case succ: True
        have l': "\<forall>j. currentChild + 1 \<le> j \<and> j < length (children[currentChild := c']) \<longrightarrow>
            (\<forall>a \<in> leafActions (children[currentChild := c'] ! j). \<forall>u. Inv u \<longrightarrow> Inv (snd (a u)))"
          using l by (simp add: nth_list_update) (metis Suc_leD)
        from "4.IH"(2) [OF True ex [symmetric] refl] succ l' w1
        have "Inv (snd (snd (snd (sequence_loop (children[currentChild := c']) (currentChild + 1) w1))))"
          by simp
        then show ?thesis using sequence_loop_step [OF True ex] succ by simp
      qed
    qed
  qed
qed

section \<open>Distances\<close>

text \<open>\<open>distanceTo\<close> of three.js is the Euclidean distance.\<close>

lemma distanceTo_euclidean: "distanceTo A B = euclideanDistance A B"
  by (simp add: distanceTo_def distanceToSquared_def euclideanDistance_def Let_def power2_eq_square)

lemma inAttackRange_exec:
  "execute (inAttackRange gs) w =
     (if distanceTo (bossPosition gs) (playerPosition gs) \<le> attackRange (bossAIRef w)
      then SUCCESS else FAILURE, inAttackRange gs, w)"
  by (simp add: inAttackRange_def execute_leaf distanceToPlayer_def Let_def)

lemma euclidean_planar: "vy A = vy B \<Longrightarrow> euclideanDistance A B = planarDistance A B"
  by (simp add: euclideanDistance_def planarDistance_def)

section \<open>Attack sphere positions\<close>

text \<open>
  For a rotation that is a yaw only, the rotation matrix of three.js turns a vector about the
  vertical axis; the player's attack sphere then sits at the player's position plus the
  turned offset.
\<close>

lemma applyMatrix4_yaw:
  "ex r = 0 \<Longrightarrow> ez r = 0 \<Longrightarrow> applyMatrix4 v (makeRotationFromEuler r) = rotateYaw (ey r) v"
  by (simp add: applyMatrix4_def makeRotationFromEuler_def rotateYaw_def Let_def)

lemma playerAttackSpherePosition_yaw:
  "ex (g_playerRotation g) = 0 \<Longrightarrow> ez (g_playerRotation g) = 0 \<Longrightarrow>
   playerAttackSpherePosition g
     = addV (g_playerPosition g)
         (rotateYaw (ey (g_playerRotation g)) (g_playerAttackSphereOffset g))"
  by (simp add: playerAttackSpherePosition_def applyMatrix4_yaw Let_def addV_def)

section \<open>Ticks of the boss tree\<close>

text \<open>What each leaf and each branch of the boss tree returns and does.\<close>

lemma attackOffCooldown_exec:
  "execute attackOffCooldown w =
     (if cooldownElapsed w then SUCCESS else FAILURE, attackOffCooldown,
      w\<lparr>dateReads := Suc (dateReads w)\<rparr>)"
  by (simp add: attackOffCooldown_def execute_leaf Date_now_def cooldownElapsed_def)

lemma inAttackRange_exec':
  "execute (inAttackRange gs) w =
     (if playerInRange gs w then SUCCESS else FAILURE, inAttackRange gs, w)"
  by (simp add: inAttackRange_exec playerInRange_def distanceToPlayer_def)

lemma performAttack_exec:
  "execute (performAttack trig) w =
     (if \<not> isAttacking (bossAIRef w)
      then (SUCCESS, performAttack trig, trig (attackStarted w))
      else (RUNNING, performAttack trig, w))"
  by (simp add: performAttack_def execute_leaf Date_now_def attackStarted_def Let_def)

lemma attackSequence_exec:
  "execute (attackSequence gs trig) w =
     (if \<not> playerInRange gs w then (FAILURE, attackSequence gs trig, w)
      else if \<not> cooldownElapsed w
        then (FAILURE, attackSequence gs trig, w\<lparr>dateReads := Suc (dateReads w)\<rparr>)
      else if isAttacking (bossAIRef w)
        then (RUNNING, CompositeNode SEQUENCE
                [inAttackRange gs, attackOffCooldown, performAttack trig] 2,
              w\<lparr>dateReads := Suc (dateReads w)\<rparr>)
      else (SUCCESS, attackSequence gs trig,
            trig (attackStarted (w\<lparr>dateReads := Suc (dateReads w)\<rparr>))))"
  by (simp add: attackSequence_def newCompositeNode_def execute.simps(2) sequence_loop.simps
        inAttackRange_exec' attackOffCooldown_exec performAttack_exec)


lemma isFacingPlayerNode_exec:
  "execute (isFacingPlayerNode gs) w =
     (if isFacingPlayer (bossRotation gs) (bossPosition gs) (playerPosition gs) 0.2
      then SUCCESS else FAILURE, isFacingPlayerNode gs, w)"
  by (simp add: isFacingPlayerNode_def execute_leaf)

lemma moveTowardsPlayer_attacking:
  "isAttacking (bossAIRef w) \<Longrightarrow>
   execute (moveTowardsPlayer gs sp delta) w = (FAILURE, moveTowardsPlayer gs sp delta, w)"
  by (simp add: moveTowardsPlayer_def execute_leaf)

lemma setBossRotation_frame:
  "bossAIRef (setBossRotation r w) = bossAIRef w"
  "bossTriggerCalls (setBossRotation r w) = bossTriggerCalls w"
  by (simp_all add: setBossRotation_def Let_def split: option.splits)

lemma setBossPosition_frame:
  "bossAIRef (setBossPosition p w) = bossAIRef w"
  "bossTriggerCalls (setBossPosition p w) = bossTriggerCalls w"
  by (simp_all add: setBossPosition_def Let_def split: option.splits)

lemma turnTowardsPlayer_exec:
  "fst (execute (turnTowardsPlayer gs setBossRotation delta) w) \<in> {SUCCESS, RUNNING}"
  "isAttacking (bossAIRef (snd (snd (execute (turnTowardsPlayer gs setBossRotation delta) w))))
     = isAttacking (bossAIRef w)"
  "bossTriggerCalls (snd (snd (execute (turnTowardsPlayer gs setBossRotation delta) w)))
     = bossTriggerCalls w"
  by (simp_all add: turnTowardsPlayer_def execute_leaf Let_def setBossRotation_frame)

lemma chaseSequence_attacking:
  assumes "isAttacking (bossAIRef w)"
  shows "fst (execute (chaseSequence gs setBossPosition setBossRotation delta) w) \<noteq> SUCCESS"
proof -
  obtain s c' w1 where t: "execute (turnTowardsPlayer gs setBossRotation delta) w = (s, c', w1)"
    by (metis prod_cases3)
  from turnTowardsPlayer_exec(1,2) [of gs delta w] t assms
  have s: "s = SUCCESS \<or> s = RUNNING" and w1: "isAttacking (bossAIRef w1)" by simp_all
  show ?thesis
    using assms s w1
    by (auto simp add: chaseSequence_def newCompositeNode_def execute.simps(2)
        sequence_loop.simps selector_loop.simps isFacingPlayerNode_exec t
        moveTowardsPlayer_attacking)
qed


lemma bossRootTick_status:
  "fst (bossRootTick gs delta w) =
     (if playerInRange gs w \<and> cooldownElapsed w
      then (if isAttacking (bossAIRef w) then RUNNING else SUCCESS)
      else fst (execute (chaseSequence gs setBossPosition setBossRotation delta)
                  (if playerInRange gs w then w\<lparr>dateReads := Suc (dateReads w)\<rparr> else w)))"
proof -
  obtain s c' w1 where c: "execute (chaseSequence gs setBossPosition setBossRotation delta) w
      = (s, c', w1)"
    by (metis prod_cases3)
  obtain s' c'' w1' where c': "execute (chaseSequence gs setBossPosition setBossRotation delta)
      (w\<lparr>dateReads := Suc (dateReads w)\<rparr>) = (s', c'', w1')"
    by (metis prod_cases3)
  show ?thesis
    by (cases s; cases s')
       (simp_all add: bossRootTick_def createBossBehaviorTree_def newCompositeNode_def
          execute.simps(2) [of SELECTOR] selector_loop.simps attackSequence_exec c c' Let_def)
qed

lemma bossRootTick_world_attack:
  "playerInRange gs w \<Longrightarrow> cooldownElapsed w \<Longrightarrow> \<not> isAttacking (bossAIRef w) \<Longrightarrow>
   snd (snd (bossRootTick gs delta w))
     = triggerBossAttack (attackStarted (w\<lparr>dateReads := Suc (dateReads w)\<rparr>))"
  by (simp add: bossRootTick_def createBossBehaviorTree_def newCompositeNode_def
          execute.simps(2) [of SELECTOR] selector_loop.simps attackSequence_exec Let_def)

lemma triggerBossAttack_frame:
  "bossAIRef (triggerBossAttack w) = bossAIRef w"
  "bossTriggerCalls (triggerBossAttack w) = Suc (bossTriggerCalls w)"
  by (simp_all add: triggerBossAttack_def setTimeout_def Let_def)

lemma bossRootTick_keeps_attacking:
  assumes "isAttacking (bossAIRef w)"
  shows "isAttacking (bossAIRef (snd (snd (bossRootTick gs delta w))))
    \<and> bossTriggerCalls (snd (snd (bossRootTick gs delta w))) = bossTriggerCalls w"
proof -
  let ?Inv = "\<lambda>u. isAttacking (bossAIRef u) \<and> bossTriggerCalls u = bossTriggerCalls w"
  have "\<forall>a \<in> leafActions (createBossBehaviorTree gs setBossPosition setBossRotation
            triggerBossAttack delta). \<forall>u. ?Inv u \<longrightarrow> ?Inv (snd (a u))"
    by (simp add: createBossBehaviorTree_def attackSequence_def chaseSequence_def
          newCompositeNode_def inAttackRange_def attackOffCooldown_def performAttack_def
          isFacingPlayerNode_def turnTowardsPlayer_def moveTowardsPlayer_def
          Let_def Date_now_def setBossRotation_frame setBossPosition_frame)
  with engine_invariant(1) [of "createBossBehaviorTree gs setBossPosition setBossRotation
            triggerBossAttack delta" ?Inv w] assms
  show ?thesis by (simp add: bossRootTick_def)
qed

lemma closeWorld_facts:
  "playerInRange closeGameState closeWorld" "cooldownElapsed closeWorld"
  "\<not> isAttacking (bossAIRef closeWorld)" "bossTriggerCalls closeWorld = 0"
  by (simp_all add: playerInRange_def cooldownElapsed_def closeWorld_def closeGameState_def
        initialWorld_def initBossAIState_def defaultGameState_def attackClock_def
        distanceToPlayer_def distanceTo_def distanceToSquared_def)

lemma wrapAbovePi_id: "a \<le> pi \<Longrightarrow> wrapAbovePi a = a"
  by (subst wrapAbovePi.simps) simp

lemma wrapBelowPi_id: "- pi \<le> a \<Longrightarrow> wrapBelowPi a = a"
  by (subst wrapBelowPi.simps) simp

lemma closeGameState_facing:
  "isFacingPlayer (bossRotation closeGameState) (bossPosition closeGameState)
     (playerPosition closeGameState) 0.2"
  by (simp add: isFacingPlayer_def angleToFacePlayer_def directionToPlayer_def normalize_def
        lengthV_def divideScalar_def multiplyScalar_def atan2_def closeGameState_def
        defaultGameState_def Let_def wrapAbovePi_id wrapBelowPi_id)

lemma chaseSequence_facing_attacking:
  "isFacingPlayer (bossRotation gs) (bossPosition gs) (playerPosition gs) 0.2 \<Longrightarrow>
   isAttacking (bossAIRef w) \<Longrightarrow>
   fst (execute (chaseSequence gs setBossPosition setBossRotation delta) w) = FAILURE"
  by (simp add: chaseSequence_def newCompositeNode_def execute.simps(2)
        sequence_loop.simps selector_loop.simps isFacingPlayerNode_exec
        moveTowardsPlayer_attacking)

text \<open>
  The tick of the chase branch on the snapshot in which the player has stepped aside: the boss
  is turned by \<open>turnSpeed \<times> delta\<close>, whether it is attacking or not.
\<close>

lemma sideGameState_turn:
  "playerInRange sideGameState w \<longleftrightarrow> 1 \<le> attackRange (bossAIRef w)"
  "\<not> isFacingPlayer (bossRotation sideGameState) (bossPosition sideGameState)
     (playerPosition sideGameState) 0.2"
  using pi_ge_two
  by (simp_all add: playerInRange_def distanceToPlayer_def distanceTo_def distanceToSquared_def
        isFacingPlayer_def angleToFacePlayer_def directionToPlayer_def normalize_def
        lengthV_def divideScalar_def multiplyScalar_def atan2_def sideGameState_def
        closeGameState_def defaultGameState_def Let_def wrapAbovePi_id wrapBelowPi_id)

lemma turnTowardsPlayer_side:
  assumes "turnSpeed (bossAIRef w) = 5 / 2"
  shows "execute (turnTowardsPlayer sideGameState setBossRotation 0.05) w =
     (RUNNING, turnTowardsPlayer sideGameState setBossRotation 0.05,
      (setBossRotation \<lparr>ex = 0, ey = pi - 0.125, ez = 0\<rparr> w)
        \<lparr>bossAIRef := (bossAIRef w)\<lparr>currentAction := ''turning''\<rparr>\<rparr>)"
  using pi_ge_two
  by (simp add: assms turnTowardsPlayer_def execute_leaf angleToFacePlayer_def directionToPlayer_def
        normalize_def lengthV_def divideScalar_def multiplyScalar_def atan2_def
        sideGameState_def closeGameState_def defaultGameState_def Let_def
        wrapAbovePi_id wrapBelowPi_id setBossRotation_frame sgn_if min_def)

lemma chaseSequence_side:
  assumes "turnSpeed (bossAIRef w) = 5 / 2"
  shows "fst (execute (chaseSequence sideGameState setBossPosition setBossRotation 0.05) w) = RUNNING
   \<and> snd (snd (execute (chaseSequence sideGameState setBossPosition setBossRotation 0.05) w))
      = (setBossRotation \<lparr>ex = 0, ey = pi - 0.125, ez = 0\<rparr> w)
          \<lparr>bossAIRef := (bossAIRef w)\<lparr>currentAction := ''turning''\<rparr>\<rparr>"
  using sideGameState_turn(2) turnTowardsPlayer_side [OF assms]
  by (simp add: chaseSequence_def newCompositeNode_def execute.simps(2)
        sequence_loop.simps selector_loop.simps isFacingPlayerNode_exec)


lemma bossRootTick_world_chase:
  "\<not> (playerInRange gs w \<and> cooldownElapsed w) \<Longrightarrow>
   snd (snd (bossRootTick gs delta w)) =
     snd (snd (execute (chaseSequence gs setBossPosition setBossRotation delta)
                 (if playerInRange gs w then w\<lparr>dateReads := Suc (dateReads w)\<rparr> else w)))"
proof -
  obtain s c' w1 where c: "execute (chaseSequence gs setBossPosition setBossRotation delta) w
      = (s, c', w1)"
    by (metis prod_cases3)
  obtain s' c'' w1' where c': "execute (chaseSequence gs setBossPosition setBossRotation delta)
      (w\<lparr>dateReads := Suc (dateReads w)\<rparr>) = (s', c'', w1')"
    by (metis prod_cases3)
  assume "\<not> (playerInRange gs w \<and> cooldownElapsed w)"
  then show ?thesis
    by (cases s; cases s')
       (auto simp add: bossRootTick_def createBossBehaviorTree_def newCompositeNode_def
          execute.simps(2) [of SELECTOR] selector_loop.simps attackSequence_exec c c' Let_def)
qed

section \<open>The damage callbacks\<close>

text \<open>The two damage callbacks in terms of the overlap tests, and the overlap tests on the
  worlds used as examples.\<close>

lemma bossDamageCallback_mirror:
  "vibenRingGlobalState w = Some g \<Longrightarrow>
   bossDamageCallback w =
     (if bossAttackOverlaps g \<and> 0 < g_playerHp g
      then setPlayerHp (max 0 (g_playerHp g - 10)) w else w)"
  by (simp add: bossDamageCallback_def bossAttackOverlaps_def ATTACK_DAMAGE_def Let_def)

lemma characterDamageCallback_mirror:
  "vibenRingGlobalState w = Some g \<Longrightarrow>
   characterDamageCallback w =
     (if playerAttackOverlaps g \<and> 0 < g_bossHp g
      then applyDmgToBoss (playerDamage (random w (randomReads w)))
             (w\<lparr>randomReads := Suc (randomReads w)\<rparr>)
      else w)"
  by (simp add: characterDamageCallback_def playerAttackOverlaps_def playerDamage_def
        Math_random_def Let_def)

lemma characterDamageCallback_fallback:
  "vibenRingGlobalState w = None \<Longrightarrow>
   characterDamageCallback w =
     (if playerAttackOverlapsFallback (characterState w) \<and> 0 < bossHp (characterState w)
      then applyDmgToBoss (playerDamage (random w (randomReads w)))
             (w\<lparr>randomReads := Suc (randomReads w)\<rparr>)
      else w)"
  by (simp add: characterDamageCallback_def playerAttackOverlapsFallback_def playerDamage_def
        Math_random_def Let_def)

lemma playerDamage_range: "0 \<le> r \<Longrightarrow> r < 1 \<Longrightarrow> 69 \<le> playerDamage r \<and> playerDamage r < 120"
  by (simp add: playerDamage_def MAX_ATTACK_DAMAGE_def MIN_ATTACK_DAMAGE_def)

lemma playerHp_setPlayerHp: "playerHp (state (setPlayerHp v w)) = v"
  by (simp add: setPlayerHp_def Let_def split: option.splits)

lemma bossHp_applyDmgToBoss:
  "bossHp (state (applyDmgToBoss d w)) = max (bossHp (state w) - d) 0"
  by (simp add: applyDmgToBoss_def)

lemma sqrt_le_iff_square: "0 \<le> r \<Longrightarrow> sqrt x \<le> r \<longleftrightarrow> x \<le> r\<^sup>2"
  by (metis abs_of_nonneg real_sqrt_abs real_sqrt_le_iff)

lemma didSpheresCollide_squared:
  "0 \<le> r1 + r2 \<Longrightarrow>
   didSpheresCollide c1 r1 c2 r2 \<longleftrightarrow> distanceToSquared c1 c2 \<le> (r1 + r2)\<^sup>2"
  by (simp add: didSpheresCollide_def distanceTo_def Let_def sqrt_le_iff_square)

lemma startMirror_overlaps:
  "playerAttackOverlaps startMirror" "\<not> bossAttackOverlaps startMirror"
  by (simp_all add: playerAttackOverlaps_def bossAttackOverlaps_def didSpheresCollide_squared
        startMirror_def syncCollisionParameters_def initialGlobalState_def defaultGameState_def
        playerAttackSpherePosition_def bossCollisionSpherePosition_def
        bossAttackSpherePosition_def playerCollisionSpherePosition_def
        applyMatrix4_def makeRotationFromEuler_def distanceToSquared_def Let_def
        power2_eq_square)

lemma reachMirror_overlaps:
  "bossAttackOverlaps (startMirror\<lparr>g_bossPosition := \<lparr>vx = 0, vy = 0, vz = 10\<rparr>\<rparr>)"
  by (simp add: bossAttackOverlaps_def didSpheresCollide_squared
        startMirror_def syncCollisionParameters_def initialGlobalState_def defaultGameState_def
        bossAttackSpherePosition_def playerCollisionSpherePosition_def
        applyMatrix4_def makeRotationFromEuler_def distanceToSquared_def Let_def
        power2_eq_square)

lemma default_fallback_misses: "\<not> playerAttackOverlapsFallback defaultGameState"
  by (simp add: playerAttackOverlapsFallback_def didSpheresCollide_squared defaultGameState_def
        playerAttackSpherePositionFallback_def bossCollisionSpherePositionFallback_def
        applyMatrix4_def makeRotationFromEuler_def distanceToSquared_def Let_def
        power2_eq_square)

lemma startWorld_fields:
  "vibenRingGlobalState startWorld = Some startMirror"
  "random startWorld (randomReads startWorld) = 0"
  "bossHp (state startWorld) = 2000" "playerHp (state startWorld) = 100"
  "g_playerHp startMirror = 100" "g_bossHp startMirror = 2000"
  "characterState startWorld = defaultGameState"
  by (simp_all add: startWorld_def initialWorld_def zeroReadings_def defaultGameState_def
        startMirror_def syncCollisionParameters_def initialGlobalState_def)

lemma turned_mirrors_overlap:
  "bossAttackOverlapsBySpec frontMirror" "\<not> bossAttackOverlaps frontMirror"
  "\<not> bossAttackOverlapsBySpec behindMirror" "bossAttackOverlaps behindMirror"
  "g_playerHp frontMirror = 100" "g_playerHp behindMirror = 100"
  by (simp_all add: bossAttackOverlapsBySpec_def bossAttackOverlaps_def
        didSpheresCollide_squared bossAttackSphereBySpec_def rotateYaw_def addV_def
        frontMirror_def behindMirror_def turnedGlobalState_def
        startMirror_def syncCollisionParameters_def initialGlobalState_def defaultGameState_def
        bossAttackSpherePosition_def playerCollisionSpherePosition_def
        applyMatrix4_def makeRotationFromEuler_def distanceToSquared_def Let_def
        power2_eq_square)

section \<open>Timeouts and events\<close>




























text \<open>
  Every world that events lead to from the start of a match has the mirror in sync with the
  store, as the lemma on the effect of the damage callbacks supposes.
\<close>

lemma mirrorInSync_updates:
  "mirrorInSync w \<Longrightarrow> mirrorInSync (setBossRotation r w)"
  "mirrorInSync w \<Longrightarrow> mirrorInSync (setBossPosition p w)"
  "mirrorInSync w \<Longrightarrow> mirrorInSync (setPlayerHp v w)"
  "mirrorInSync w \<Longrightarrow> mirrorInSync (applyDmgToBoss dmg w)"
  "mirrorInSync w \<Longrightarrow> mirrorInSync (triggerBossAttack w)"
  by (auto simp add: mirrorInSync_def setBossRotation_def setBossPosition_def setPlayerHp_def
        applyDmgToBoss_def triggerBossAttack_def setTimeout_def Let_def)

lemma mirrorInSync_other_fields:
  "mirrorInSync (w\<lparr>time := t\<rparr>) = mirrorInSync w"
  "mirrorInSync (w\<lparr>timers := ts\<rparr>) = mirrorInSync w"
  "mirrorInSync (w\<lparr>dateReads := n\<rparr>) = mirrorInSync w"
  "mirrorInSync (w\<lparr>randomReads := n\<rparr>) = mirrorInSync w"
  "mirrorInSync (w\<lparr>bossAIRef := ai\<rparr>) = mirrorInSync w"
  "mirrorInSync (w\<lparr>bossOnFinished := k\<rparr>) = mirrorInSync w"
  "mirrorInSync (w\<lparr>isAttackingRef := b\<rparr>) = mirrorInSync w"
  "mirrorInSync (w\<lparr>lastAttackTimeRef := t\<rparr>) = mirrorInSync w"
  "mirrorInSync (w\<lparr>characterOnFinished := l\<rparr>) = mirrorInSync w"
  "mirrorInSync (w\<lparr>characterAttacks := k\<rparr>) = mirrorInSync w"
  by (simp_all add: mirrorInSync_def)

lemma mirrorInSync_runTask: "mirrorInSync w \<Longrightarrow> mirrorInSync (runTask task w)"
proof (cases task)
  case CharacterDamage
  assume m: "mirrorInSync w"
  then obtain g where g: "vibenRingGlobalState w = Some g" by (auto simp add: mirrorInSync_def)
  show ?thesis using m CharacterDamage
    by (simp add: runTask_def characterDamageCallback_mirror [OF g] mirrorInSync_updates
          mirrorInSync_other_fields)
next
  case (CharacterBackup n)
  assume "mirrorInSync w"
  then show ?thesis using CharacterBackup
    by (simp add: runTask_def characterBackupCallback_def Let_def mirrorInSync_other_fields)
next
  case BossDamage
  assume m: "mirrorInSync w"
  then obtain g where g: "vibenRingGlobalState w = Some g" by (auto simp add: mirrorInSync_def)
  show ?thesis using m BossDamage
    by (simp add: runTask_def bossDamageCallback_mirror [OF g] mirrorInSync_updates)
qed

lemma mirrorInSync_fold:
  "mirrorInSync u \<Longrightarrow>
   mirrorInSync (foldl (\<lambda>u p. runTask (snd p) (u\<lparr>time := fst p\<rparr>)) u ps)"
  by (induction ps arbitrary: u) (simp_all add: mirrorInSync_runTask mirrorInSync_other_fields)

lemma mirrorInSync_bossRootTick:
  assumes "mirrorInSync w"
  shows "mirrorInSync (snd (snd (bossRootTick gs delta w)))"
proof -
  have "\<forall>a \<in> leafActions (createBossBehaviorTree gs setBossPosition setBossRotation
            triggerBossAttack delta). \<forall>u. mirrorInSync u \<longrightarrow> mirrorInSync (snd (a u))"
    by (auto simp add: createBossBehaviorTree_def attackSequence_def chaseSequence_def
          newCompositeNode_def inAttackRange_def attackOffCooldown_def performAttack_def
          isFacingPlayerNode_def turnTowardsPlayer_def moveTowardsPlayer_def
          Let_def Date_now_def mirrorInSync_updates mirrorInSync_other_fields)
  with engine_invariant(1) [of "createBossBehaviorTree gs setBossPosition setBossRotation
            triggerBossAttack delta" mirrorInSync w] assms
  show ?thesis by (simp add: bossRootTick_def)
qed

lemma mirrorInSync_step: "mirrorInSync w \<Longrightarrow> mirrorInSync (step w e)"
proof (cases e)
  case (MouseDown b)
  assume "mirrorInSync w"
  then show ?thesis using MouseDown
    by (simp add: handleMouseClick_def Date_now_def setTimeout_def Let_def
          mirrorInSync_other_fields)
next
  case CharacterFinished
  assume "mirrorInSync w"
  then show ?thesis using CharacterFinished
    by (simp add: characterAnimationFinished_def mirrorInSync_other_fields)
next
  case BossFinished
  assume m: "mirrorInSync w"
  have "mirrorInSync u \<Longrightarrow> mirrorInSync (bossOnFinishedListener u)" for u
    by (simp add: bossOnFinishedListener_def Date_now_def Let_def mirrorInSync_other_fields)
  then have "mirrorInSync ((bossOnFinishedListener ^^ k) w)" for k
    using m by (induction k) simp_all
  then show ?thesis using BossFinished by (simp add: bossAnimationFinished_def)
next
  case (BossTick gs delta)
  assume "mirrorInSync w"
  then show ?thesis using BossTick by (simp add: mirrorInSync_bossRootTick)
next
  case (Advance t)
  assume "mirrorInSync w"
  then show ?thesis using Advance
    by (simp add: advanceTo_def Let_def mirrorInSync_fold mirrorInSync_other_fields)
qed

lemma reachable_mirrorInSync: "mirrorInSync (run es (initialWorld clock rnd))"
proof -
  have 0: "mirrorInSync (initialWorld clock rnd)"
    by (simp add: mirrorInSync_def initialWorld_def startMirror_def syncCollisionParameters_def
          initialGlobalState_def defaultGameState_def)
  have "mirrorInSync w \<Longrightarrow> mirrorInSync (run es w)" for w
    by (induction es arbitrary: w) (simp_all add: run_def mirrorInSync_step)
  with 0 show ?thesis by simp
qed

section \<open>Selector and Sequence ticks\<close>

text \<open>
  Claim C1.  One tick of a Selector, for every list of children, every remembered cursor and
  every world.  The tick starts at the remembered cursor (at 0 when the cursor is out of range)
  and stops at some position \<open>k\<close>: the children from the start up to \<open>k\<close> are executed in order,
  each on the world left by the one before, and each returns FAILURE; the siblings before the
  start and after \<open>k\<close> are not executed (they are returned as they were, and the resulting world
  is the one left by the last child executed).  If \<open>k\<close> is a child, it returned RUNNING and the
  Selector returns RUNNING with the cursor on \<open>k\<close>, or it returned SUCCESS and the Selector returns
  SUCCESS with the cursor at 0.  If every child from the start on failed, the Selector returns
  FAILURE with the cursor at 0.  In particular, with three children of which the first fails and
  the second is running, a tick from cursor 0 returns RUNNING with the cursor on the second
  child and the third child untouched; if the second child succeeds on the next tick, that tick
  returns SUCCESS with the cursor at 0, and the first child is not executed again.
\<close>

theorem selector_tick:
  "(\<exists>st cs' cur' w' k \<sigma>.
      execute (CompositeNode SELECTOR cs cur) w = (st, CompositeNode SELECTOR cs' cur', w')
    \<and> startCursor cs cur \<le> k \<and> k \<le> length cs \<and> length cs' = length cs
    \<and> \<sigma> (startCursor cs cur) = w
    \<and> (\<forall>j<length cs. j < startCursor cs cur \<or> k < j \<longrightarrow> cs' ! j = cs ! j)
    \<and> (\<forall>j. startCursor cs cur \<le> j \<and> j < k \<longrightarrow>
          execute (cs ! j) (\<sigma> j) = (FAILURE, cs' ! j, \<sigma> (Suc j)))
    \<and> (if k < length cs
        then execute (cs ! k) (\<sigma> k) = (st, cs' ! k, w')
             \<and> (st = RUNNING \<and> cur' = k \<or> st = SUCCESS \<and> cur' = 0)
        else st = FAILURE \<and> cur' = 0 \<and> w' = \<sigma> k))
   \<and> (execute c1 w0 = (FAILURE, c1', w1) \<longrightarrow> execute c2 w1 = (RUNNING, c2', w2) \<longrightarrow>
        execute (CompositeNode SELECTOR [c1, c2, c3] 0) w0
          = (RUNNING, CompositeNode SELECTOR [c1', c2', c3] 1, w2)
      \<and> (\<forall>w3 c2'' w4. execute c2' w3 = (SUCCESS, c2'', w4) \<longrightarrow>
            execute (CompositeNode SELECTOR [c1', c2', c3] 1) w3
              = (SUCCESS, CompositeNode SELECTOR [c1', c2'', c3] 0, w4)))"
proof (rule conjI)
  obtain st cs' cur' w' where
    loop: "selector_loop cs (startCursor cs cur) w = (st, cs', cur', w')"
    by (metis prod_cases4)
  from selector_loop_spec [OF loop startCursor_le] obtain k \<sigma> where
    "startCursor cs cur \<le> k \<and> k \<le> length cs \<and> length cs' = length cs
    \<and> \<sigma> (startCursor cs cur) = w
    \<and> (\<forall>j<length cs. j < startCursor cs cur \<or> k < j \<longrightarrow> cs' ! j = cs ! j)
    \<and> (\<forall>j. startCursor cs cur \<le> j \<and> j < k \<longrightarrow>
          execute (cs ! j) (\<sigma> j) = (FAILURE, cs' ! j, \<sigma> (Suc j)))
    \<and> (if k < length cs
        then execute (cs ! k) (\<sigma> k) = (st, cs' ! k, w')
             \<and> (st = RUNNING \<and> cur' = k \<or> st = SUCCESS \<and> cur' = 0)
        else st = FAILURE \<and> cur' = 0 \<and> w' = \<sigma> k)"
    by blast
  with execute_selector [OF loop]
  show "\<exists>st cs' cur' w' k \<sigma>.
      execute (CompositeNode SELECTOR cs cur) w = (st, CompositeNode SELECTOR cs' cur', w')
    \<and> startCursor cs cur \<le> k \<and> k \<le> length cs \<and> length cs' = length cs
    \<and> \<sigma> (startCursor cs cur) = w
    \<and> (\<forall>j<length cs. j < startCursor cs cur \<or> k < j \<longrightarrow> cs' ! j = cs ! j)
    \<and> (\<forall>j. startCursor cs cur \<le> j \<and> j < k \<longrightarrow>
          execute (cs ! j) (\<sigma> j) = (FAILURE, cs' ! j, \<sigma> (Suc j)))
    \<and> (if k < length cs
        then execute (cs ! k) (\<sigma> k) = (st, cs' ! k, w')
             \<and> (st = RUNNING \<and> cur' = k \<or> st = SUCCESS \<and> cur' = 0)
        else st = FAILURE \<and> cur' = 0 \<and> w' = \<sigma> k)"
    by (intro exI [of _ st] exI [of _ cs'] exI [of _ cur'] exI [of _ w'] exI [of _ k]
          exI [of _ \<sigma>] conjI) simp_all
next
  show "execute c1 w0 = (FAILURE, c1', w1) \<longrightarrow> execute c2 w1 = (RUNNING, c2', w2) \<longrightarrow>
        execute (CompositeNode SELECTOR [c1, c2, c3] 0) w0
          = (RUNNING, CompositeNode SELECTOR [c1', c2', c3] 1, w2)
      \<and> (\<forall>w3 c2'' w4. execute c2' w3 = (SUCCESS, c2'', w4) \<longrightarrow>
            execute (CompositeNode SELECTOR [c1', c2', c3] 1) w3
              = (SUCCESS, CompositeNode SELECTOR [c1', c2'', c3] 0, w4))"
  proof (intro impI conjI allI)
    assume a: "execute c1 w0 = (FAILURE, c1', w1)" and b: "execute c2 w1 = (RUNNING, c2', w2)"
    have "selector_loop [c1', c2, c3] 1 w1 = (RUNNING, [c1', c2', c3], 1, w2)"
      using selector_loop_step [of 1 "[c1', c2, c3]" w1 RUNNING c2' w2] b by simp
    then have "selector_loop [c1, c2, c3] 0 w0 = (RUNNING, [c1', c2', c3], 1, w2)"
      using selector_loop_step [of 0 "[c1, c2, c3]" w0 FAILURE c1' w1] a by simp
    then show "execute (CompositeNode SELECTOR [c1, c2, c3] 0) w0
          = (RUNNING, CompositeNode SELECTOR [c1', c2', c3] 1, w2)"
      by (intro execute_selector) (simp add: startCursor_def)
  next
    fix w3 c2'' w4
    assume c: "execute c2' w3 = (SUCCESS, c2'', w4)"
    have "selector_loop [c1', c2', c3] 1 w3 = (SUCCESS, [c1', c2'', c3], 0, w4)"
      using selector_loop_step [of 1 "[c1', c2', c3]" w3 SUCCESS c2'' w4] c by simp
    then show "execute (CompositeNode SELECTOR [c1', c2', c3] 1) w3
              = (SUCCESS, CompositeNode SELECTOR [c1', c2'', c3] 0, w4)"
      by (intro execute_selector) (simp add: startCursor_def)
  qed
qed

text \<open>
  The scenario of C1 on logging leaves: the log shows which leaves ran.  The first tick runs
  leaves 1 and 2 only; the second tick runs leaf 2 only.
\<close>

theorem selector_tick_witness:
  "execute (CompositeNode SELECTOR
       [logLeaf 1 FAILURE, logLeafThen 2 RUNNING SUCCESS, logLeaf 3 SUCCESS] 0) []
     = (RUNNING, CompositeNode SELECTOR
          [logLeaf 1 FAILURE, logLeafThen 2 RUNNING SUCCESS, logLeaf 3 SUCCESS] 1, [1, 2])
   \<and> execute (CompositeNode SELECTOR
       [logLeaf 1 FAILURE, logLeafThen 2 RUNNING SUCCESS, logLeaf 3 SUCCESS] 1) [1, 2]
     = (SUCCESS, CompositeNode SELECTOR
          [logLeaf 1 FAILURE, logLeafThen 2 RUNNING SUCCESS, logLeaf 3 SUCCESS] 0, [1, 2, 2])"
proof -
  have a: "execute (logLeaf 1 FAILURE) [] = (FAILURE, logLeaf 1 FAILURE, [1])"
    by (simp add: logLeaf_def execute_leaf)
  have b: "execute (logLeafThen 2 RUNNING SUCCESS) [1]
      = (RUNNING, logLeafThen 2 RUNNING SUCCESS, [1, 2])"
    by (simp add: logLeafThen_def execute_leaf)
  have c: "execute (logLeafThen 2 RUNNING SUCCESS) [1, 2]
      = (SUCCESS, logLeafThen 2 RUNNING SUCCESS, [1, 2, 2])"
    by (simp add: logLeafThen_def execute_leaf)
  from selector_tick [of "[]" 0 "[]" "logLeaf 1 FAILURE" "[]" "logLeaf 1 FAILURE" "[1]"
      "logLeafThen 2 RUNNING SUCCESS" "logLeafThen 2 RUNNING SUCCESS" "[1, 2]"
      "logLeaf 3 SUCCESS"] a b c
  show ?thesis by blast
qed

text \<open>
  Claim C2.  One tick of a Sequence, for every list of children, every remembered cursor and
  every world.  The tick starts at the remembered cursor (at 0 when the cursor is out of range)
  and stops at some position \<open>k\<close>: the children from the start up to \<open>k\<close> are executed in order
  and each returns SUCCESS, so the cursor moves past them; no other sibling is executed.  If \<open>k\<close>
  is a child, it returned RUNNING and the Sequence returns RUNNING with the cursor on \<open>k\<close>, or it
  returned FAILURE and the Sequence returns FAILURE with the cursor at 0.  If every child from
  the start on succeeded, the Sequence returns SUCCESS with the cursor at 0.  In particular, with
  three children of which the first succeeds and the second fails, one tick from cursor 0
  returns FAILURE with the cursor at 0: the first two children are executed and the third is
  not.
\<close>

theorem sequence_tick:
  "(\<exists>st cs' cur' w' k \<sigma>.
      execute (CompositeNode SEQUENCE cs cur) w = (st, CompositeNode SEQUENCE cs' cur', w')
    \<and> startCursor cs cur \<le> k \<and> k \<le> length cs \<and> length cs' = length cs
    \<and> \<sigma> (startCursor cs cur) = w
    \<and> (\<forall>j<length cs. j < startCursor cs cur \<or> k < j \<longrightarrow> cs' ! j = cs ! j)
    \<and> (\<forall>j. startCursor cs cur \<le> j \<and> j < k \<longrightarrow>
          execute (cs ! j) (\<sigma> j) = (SUCCESS, cs' ! j, \<sigma> (Suc j)))
    \<and> (if k < length cs
        then execute (cs ! k) (\<sigma> k) = (st, cs' ! k, w')
             \<and> (st = RUNNING \<and> cur' = k \<or> st = FAILURE \<and> cur' = 0)
        else st = SUCCESS \<and> cur' = 0 \<and> w' = \<sigma> k))
   \<and> (execute c1 w0 = (SUCCESS, c1', w1) \<longrightarrow> execute c2 w1 = (FAILURE, c2', w2) \<longrightarrow>
        execute (CompositeNode SEQUENCE [c1, c2, c3] 0) w0
          = (FAILURE, CompositeNode SEQUENCE [c1', c2', c3] 0, w2))"
proof (rule conjI)
  obtain st cs' cur' w' where
    loop: "sequence_loop cs (startCursor cs cur) w = (st, cs', cur', w')"
    by (metis prod_cases4)
  from sequence_loop_spec [OF loop startCursor_le] obtain k \<sigma> where
    "startCursor cs cur \<le> k \<and> k \<le> length cs \<and> length cs' = length cs
    \<and> \<sigma> (startCursor cs cur) = w
    \<and> (\<forall>j<length cs. j < startCursor cs cur \<or> k < j \<longrightarrow> cs' ! j = cs ! j)
    \<and> (\<forall>j. startCursor cs cur \<le> j \<and> j < k \<longrightarrow>
          execute (cs ! j) (\<sigma> j) = (SUCCESS, cs' ! j, \<sigma> (Suc j)))
    \<and> (if k < length cs
        then execute (cs ! k) (\<sigma> k) = (st, cs' ! k, w')
             \<and> (st = RUNNING \<and> cur' = k \<or> st = FAILURE \<and> cur' = 0)
        else st = SUCCESS \<and> cur' = 0 \<and> w' = \<sigma> k)"
    by blast
  with execute_sequence [OF loop]
  show "\<exists>st cs' cur' w' k \<sigma>.
      execute (CompositeNode SEQUENCE cs cur) w = (st, CompositeNode SEQUENCE cs' cur', w')
    \<and> startCursor cs cur \<le> k \<and> k \<le> length cs \<and> length cs' = length cs
    \<and> \<sigma> (startCursor cs cur) = w
    \<and> (\<forall>j<length cs. j < startCursor cs cur \<or> k < j \<longrightarrow> cs' ! j = cs ! j)
    \<and> (\<forall>j. startCursor cs cur \<le> j \<and> j < k \<longrightarrow>
          execute (cs ! j) (\<sigma> j) = (SUCCESS, cs' ! j, \<sigma> (Suc j)))
    \<and> (if k < length cs
        then execute (cs ! k) (\<sigma> k) = (st, cs' ! k, w')
             \<and> (st = RUNNING \<and> cur' = k \<or> st = FAILURE \<and> cur' = 0)
        else st = SUCCESS \<and> cur' = 0 \<and> w' = \<sigma> k)"
    by (intro exI [of _ st] exI [of _ cs'] exI [of _ cur'] exI [of _ w'] exI [of _ k]
          exI [of _ \<sigma>] conjI) simp_all
next
  show "execute c1 w0 = (SUCCESS, c1', w1) \<longrightarrow> execute c2 w1 = (FAILURE, c2', w2) \<longrightarrow>
        execute (CompositeNode SEQUENCE [c1, c2, c3] 0) w0
          = (FAILURE, CompositeNode SEQUENCE [c1', c2', c3] 0, w2)"
  proof (intro impI)
    assume a: "execute c1 w0 = (SUCCESS, c1', w1)" and b: "execute c2 w1 = (FAILURE, c2', w2)"
    have "sequence_loop [c1', c2, c3] 1 w1 = (FAILURE, [c1', c2', c3], 0, w2)"
      using sequence_loop_step [of 1 "[c1', c2, c3]" w1 FAILURE c2' w2] b by simp
    then have "sequence_loop [c1, c2, c3] 0 w0 = (FAILURE, [c1', c2', c3], 0, w2)"
      using sequence_loop_step [of 0 "[c1, c2, c3]" w0 SUCCESS c1' w1] a by simp
    then show "execute (CompositeNode SEQUENCE [c1, c2, c3] 0) w0
          = (FAILURE, CompositeNode SEQUENCE [c1', c2', c3] 0, w2)"
      by (intro execute_sequence) (simp add: startCursor_def)
  qed
qed

text \<open>The scenario of C2 on logging leaves: leaves 1 and 2 ran, leaf 3 did not.\<close>

theorem sequence_tick_witness:
  "execute (CompositeNode SEQUENCE
       [logLeaf 1 SUCCESS, logLeaf 2 FAILURE, logLeaf 3 SUCCESS] 0) []
     = (FAILURE, CompositeNode SEQUENCE
          [logLeaf 1 SUCCESS, logLeaf 2 FAILURE, logLeaf 3 SUCCESS] 0, [1, 2])"
proof -
  have a: "execute (logLeaf 1 SUCCESS) [] = (SUCCESS, logLeaf 1 SUCCESS, [1])"
    by (simp add: logLeaf_def execute_leaf)
  have b: "execute (logLeaf 2 FAILURE) [1] = (FAILURE, logLeaf 2 FAILURE, [1, 2])"
    by (simp add: logLeaf_def execute_leaf)
  from sequence_tick [of "[]" 0 "[]" "logLeaf 1 SUCCESS" "[]" "logLeaf 1 SUCCESS" "[1]"
      "logLeaf 2 FAILURE" "logLeaf 2 FAILURE" "[1, 2]" "logLeaf 3 SUCCESS"] a b
  show ?thesis by blast
qed

section \<open>Sphere overlap\<close>

text \<open>
  Claim C5.  For all centres \<open>A\<close>, \<open>B\<close> and radii \<open>rA\<close>, \<open>rB\<close>, \<open>didSpheresCollide\<close> returns
  true if and only if the Euclidean distance of the centres is at most \<open>rA + rB\<close>.  The
  boundary is closed: a distance equal to \<open>rA + rB\<close> gives true, and every greater distance
  gives false.
\<close>

theorem didSpheresCollide_closed_ball:
  "(didSpheresCollide A rA B rB \<longleftrightarrow> euclideanDistance A B \<le> rA + rB)
   \<and> (euclideanDistance A B = rA + rB \<longrightarrow> didSpheresCollide A rA B rB)
   \<and> (euclideanDistance A B > rA + rB \<longrightarrow> \<not> didSpheresCollide A rA B rB)"
  by (simp add: didSpheresCollide_def distanceTo_euclidean Let_def)

text \<open>
  Two spheres with centres 5 apart: radii 2 and 3 touch and collide, radii 2 and 2.9 do not.
\<close>

theorem didSpheresCollide_closed_ball_witness:
  "euclideanDistance \<lparr>vx = 0, vy = 0, vz = 0\<rparr> \<lparr>vx = 3, vy = 4, vz = 0\<rparr> = 2 + 3
   \<and> didSpheresCollide \<lparr>vx = 0, vy = 0, vz = 0\<rparr> 2 \<lparr>vx = 3, vy = 4, vz = 0\<rparr> 3
   \<and> euclideanDistance \<lparr>vx = 0, vy = 0, vz = 0\<rparr> \<lparr>vx = 3, vy = 4, vz = 0\<rparr> > 2 + 2.9
   \<and> \<not> didSpheresCollide \<lparr>vx = 0, vy = 0, vz = 0\<rparr> 2 \<lparr>vx = 3, vy = 4, vz = 0\<rparr> 2.9"
proof -
  have d: "euclideanDistance \<lparr>vx = 0, vy = 0, vz = 0\<rparr> \<lparr>vx = 3, vy = 4, vz = 0\<rparr> = 5"
    by (simp add: euclideanDistance_def)
  from didSpheresCollide_closed_ball [of "\<lparr>vx = 0, vy = 0, vz = 0\<rparr>" 2 "\<lparr>vx = 3, vy = 4, vz = 0\<rparr>" 3]
    didSpheresCollide_closed_ball [of "\<lparr>vx = 0, vy = 0, vz = 0\<rparr>" 2 "\<lparr>vx = 3, vy = 4, vz = 0\<rparr>" "2.9"]
  show ?thesis unfolding d by simp
qed

section \<open>The InAttackRange leaf\<close>

text \<open>
  Claim C7 says that the leaf compares the planar distance, the Y components ignored, for
  every pair of positions.  With the boss at the origin and the player 20 units above it the
  planar distance is 0, within the range of 10, and the leaf returns FAILURE: the leaf calls
  \<open>distanceToPlayer\<close>, which is the distance in space.
\<close>

theorem inAttackRange_planar_counterexample:
  "\<not> (fst (execute (inAttackRange
            (defaultGameState\<lparr>playerPosition := \<lparr>vx = 0, vy = 20, vz = 0\<rparr>,
                               bossPosition := \<lparr>vx = 0, vy = 0, vz = 0\<rparr>\<rparr>))
          startWorld) = SUCCESS
       \<longleftrightarrow> planarDistance \<lparr>vx = 0, vy = 0, vz = 0\<rparr> \<lparr>vx = 0, vy = 20, vz = 0\<rparr>
             \<le> attackRange (bossAIRef startWorld))"
  by (simp add: inAttackRange_exec distanceTo_euclidean euclideanDistance_def planarDistance_def
        startWorld_def initialWorld_def initBossAIState_def)

text \<open>
  Claim C7 as amended.  For every pair of boss and player positions of the snapshot, the
  InAttackRange leaf returns SUCCESS if and only if the Euclidean distance in space between
  the boss position and the player position, the Y components included, is at most
  \<open>attackRange\<close>; the leaf changes nothing.  Whenever the two positions have the same Y
  component, this is the planar distance of the claim.
\<close>

theorem inAttackRange_euclidean:
  "(fst (execute (inAttackRange gs) w) = SUCCESS
      \<longleftrightarrow> euclideanDistance (bossPosition gs) (playerPosition gs) \<le> attackRange (bossAIRef w))
   \<and> snd (snd (execute (inAttackRange gs) w)) = w
   \<and> (vy (bossPosition gs) = vy (playerPosition gs) \<longrightarrow>
        (fst (execute (inAttackRange gs) w) = SUCCESS
           \<longleftrightarrow> planarDistance (bossPosition gs) (playerPosition gs) \<le> attackRange (bossAIRef w)))"
  by (simp add: inAttackRange_exec distanceTo_euclidean euclidean_planar)

text \<open>
  At the default state boss and player stand on the same height, 20 apart in the plane, and
  the leaf fails for the range of 10.
\<close>

theorem inAttackRange_euclidean_witness:
  "vy (bossPosition defaultGameState) = vy (playerPosition defaultGameState)
   \<and> planarDistance (bossPosition defaultGameState) (playerPosition defaultGameState) = 20
   \<and> fst (execute (inAttackRange defaultGameState) startWorld) = FAILURE"
proof -
  have p: "planarDistance (bossPosition defaultGameState) (playerPosition defaultGameState) = 20"
    by (simp add: planarDistance_def defaultGameState_def)
  have r: "attackRange (bossAIRef startWorld) = 10"
    by (simp add: startWorld_def initialWorld_def initBossAIState_def)
  have y: "vy (bossPosition defaultGameState) = vy (playerPosition defaultGameState)"
    by (simp add: defaultGameState_def)
  from inAttackRange_euclidean [of defaultGameState startWorld] y
  have "fst (execute (inAttackRange defaultGameState) startWorld) = SUCCESS
      \<longleftrightarrow> planarDistance (bossPosition defaultGameState) (playerPosition defaultGameState)
            \<le> attackRange (bossAIRef startWorld)"
    by blast
  then have "fst (execute (inAttackRange defaultGameState) startWorld) \<noteq> SUCCESS"
    unfolding p r by simp
  moreover have "fst (execute (inAttackRange defaultGameState) startWorld)
      \<in> {SUCCESS, FAILURE}"
    by (simp add: inAttackRange_exec)
  ultimately show ?thesis using p y by auto
qed

section \<open>Damage to the boss\<close>

text \<open>
  Claim C8 says that \<open>applyDmgToBoss\<close> keeps the boss HP within \<open>[0, maxHp]\<close> for every damage
  amount.  The function clamps from below only: a negative amount applied to the full 2000 HP
  leaves 2001.
\<close>

theorem applyDmgToBoss_negative_damage_counterexample:
  "0 \<le> bossHp (state startWorld)
   \<and> bossHp (state startWorld) \<le> 2000
   \<and> \<not> (bossHp (state (applyDmgToBoss (- 1) startWorld)) \<le> maxHp)"
  by (simp add: applyDmgToBoss_def startWorld_def initialWorld_def defaultGameState_def maxHp_def)

text \<open>
  Claim C8 as amended.  For every starting boss HP in \<open>[0, 2000]\<close> and every damage amount,
  \<open>applyDmgToBoss\<close> never drives the boss HP negative, and for a damage of at least the
  current HP the resulting HP is exactly 0; for every damage amount that is not negative the
  resulting HP stays within \<open>[0, maxHp]\<close>.
\<close>

theorem applyDmgToBoss_clamp:
  "0 \<le> bossHp (state w) \<Longrightarrow> bossHp (state w) \<le> 2000 \<Longrightarrow>
     0 \<le> bossHp (state (applyDmgToBoss dmg w))
   \<and> (0 \<le> dmg \<longrightarrow> bossHp (state (applyDmgToBoss dmg w)) \<le> maxHp)
   \<and> (bossHp (state w) \<le> dmg \<longrightarrow> bossHp (state (applyDmgToBoss dmg w)) = 0)"
  by (simp add: applyDmgToBoss_def maxHp_def defaultGameState_def)

text \<open>A damage of 2500 on the full 2000 HP leaves exactly 0.\<close>

theorem applyDmgToBoss_clamp_witness:
  "0 \<le> bossHp (state startWorld)
   \<and> bossHp (state startWorld) \<le> 2000
   \<and> (0::real) \<le> 2500 \<and> bossHp (state startWorld) \<le> 2500
   \<and> bossHp (state (applyDmgToBoss 2500 startWorld)) = 0"
proof -
  have h: "0 \<le> bossHp (state startWorld)"
    "bossHp (state startWorld) \<le> 2000"
    by (simp_all add: startWorld_def initialWorld_def defaultGameState_def)
  from applyDmgToBoss_clamp [OF h, of 2500] h show ?thesis by simp
qed

section \<open>Setting the player HP\<close>

text \<open>
  Claim C10.  \<open>setPlayerHp v\<close> stores \<open>v\<close> as it is, in the React state and in the window
  mirror, for every \<open>v\<close>: the store clamps to no range, so a call with \<open>v < 0\<close> or \<open>v > 100\<close>
  leaves the player HP outside \<open>[0, 100]\<close>.  Keeping the player HP from going negative is
  the caller's work: the boss's damage callback either changes nothing or calls
  \<open>setPlayerHp\<close> with \<open>max(0, playerHp - 10)\<close>, computed from the mirror's player HP.
\<close>

theorem setPlayerHp_verbatim:
  "playerHp (state (setPlayerHp v w)) = v
   \<and> (\<forall>g. vibenRingGlobalState w = Some g \<longrightarrow>
         vibenRingGlobalState (setPlayerHp v w) = Some (g\<lparr>g_playerHp := v\<rparr>))
   \<and> (v < 0 \<or> 100 < v \<longrightarrow>
         \<not> (0 \<le> playerHp (state (setPlayerHp v w)) \<and> playerHp (state (setPlayerHp v w)) \<le> 100))
   \<and> (bossDamageCallback w = w
        \<or> (\<exists>g. vibenRingGlobalState w = Some g
              \<and> bossDamageCallback w = setPlayerHp (max 0 (g_playerHp g - 10)) w))"
  by (auto simp add: setPlayerHp_def bossDamageCallback_def ATTACK_DAMAGE_def Let_def
        split: option.splits)

text \<open>Direct calls with -5 and with 150 on the start of a match.\<close>

theorem setPlayerHp_verbatim_witness:
  "playerHp (state (setPlayerHp (- 5) startWorld)) = - 5
   \<and> (\<exists>g. vibenRingGlobalState (setPlayerHp (- 5) startWorld) = Some g \<and> g_playerHp g = - 5)
   \<and> playerHp (state (setPlayerHp 150 startWorld)) = 150"
proof -
  have g: "vibenRingGlobalState startWorld
      = Some startMirror"
    by (simp add: startWorld_def initialWorld_def)
  from setPlayerHp_verbatim [of "- 5" startWorld] setPlayerHp_verbatim [of 150 startWorld] g
  show ?thesis by simp
qed

section \<open>The boss's attack sphere\<close>

text \<open>
  Claim C6 (the code departs from it).  The player's damage callback places the attack sphere
  at the player's position plus the rotated offset, in all three components.  The boss's
  damage callback adds the rotated offset in X and Y and subtracts it in Z.  For the boss at
  \<open>(0, 0, 20)\<close> with yaw \<open>\<pi>\<close> and the offset \<open>(0, 1.5, 10)\<close>, position plus rotated offset is
  \<open>(0, 1.5, 10)\<close>, in front of the boss; the callback computes \<open>(0, 1.5, 30)\<close>, behind it.
\<close>

theorem bossAttackSpherePosition_z_subtracted:
  "playerAttackSpherePosition g
     = addV (g_playerPosition g)
         (applyMatrix4 (g_playerAttackSphereOffset g)
            (makeRotationFromEuler (g_playerRotation g)))
   \<and> bossAttackSpherePosition turnedGlobalState = \<lparr>vx = 0, vy = 1.5, vz = 30\<rparr>
   \<and> addV (g_bossPosition turnedGlobalState)
        (rotateYaw (ey (g_bossRotation turnedGlobalState))
           (g_bossAttackSphereOffset turnedGlobalState))
      = \<lparr>vx = 0, vy = 1.5, vz = 10\<rparr>"
  by (simp add: playerAttackSpherePosition_def bossAttackSpherePosition_def
        turnedGlobalState_def startMirror_def syncCollisionParameters_def
        initialGlobalState_def defaultGameState_def applyMatrix4_def makeRotationFromEuler_def
        rotateYaw_def addV_def Let_def)

section \<open>Boss attack gating\<close>

text \<open>
  What the tree keeps of the gating.  A tick with the player within \<open>attackRange\<close>, the
  cooldown elapsed and the boss not attacking calls the attack trigger exactly once, sets
  \<open>isAttacking\<close> and returns SUCCESS.  A tick made while \<open>isAttacking\<close> is true, with any
  snapshot and any delta, does not call the attack trigger, leaves \<open>isAttacking\<close> true and
  does not return SUCCESS.
\<close>

lemma bossRootTick_gating:
  "(playerInRange gs w \<and> cooldownElapsed w \<and> \<not> isAttacking (bossAIRef w) \<longrightarrow>
       fst (bossRootTick gs delta w) = SUCCESS
     \<and> bossTriggerCalls (snd (snd (bossRootTick gs delta w))) = Suc (bossTriggerCalls w)
     \<and> isAttacking (bossAIRef (snd (snd (bossRootTick gs delta w)))))
   \<and> (isAttacking (bossAIRef w) \<longrightarrow>
       bossTriggerCalls (snd (snd (bossRootTick gs delta w))) = bossTriggerCalls w
     \<and> isAttacking (bossAIRef (snd (snd (bossRootTick gs delta w))))
     \<and> fst (bossRootTick gs delta w) \<noteq> SUCCESS)"
proof (intro conjI impI)
  assume a: "playerInRange gs w \<and> cooldownElapsed w \<and> \<not> isAttacking (bossAIRef w)"
  then show "fst (bossRootTick gs delta w) = SUCCESS"
    by (simp add: bossRootTick_status)
  from a have w': "snd (snd (bossRootTick gs delta w))
      = triggerBossAttack (attackStarted (w\<lparr>dateReads := Suc (dateReads w)\<rparr>))"
    by (simp add: bossRootTick_world_attack)
  show "bossTriggerCalls (snd (snd (bossRootTick gs delta w))) = Suc (bossTriggerCalls w)"
    unfolding w' by (simp add: triggerBossAttack_frame attackStarted_def)
  show "isAttacking (bossAIRef (snd (snd (bossRootTick gs delta w))))"
    unfolding w' by (simp add: triggerBossAttack_frame attackStarted_def)
next
  assume a: "isAttacking (bossAIRef w)"
  from bossRootTick_keeps_attacking [OF a]
  show "bossTriggerCalls (snd (snd (bossRootTick gs delta w))) = bossTriggerCalls w"
    and "isAttacking (bossAIRef (snd (snd (bossRootTick gs delta w))))"
    by simp_all
  have "isAttacking (bossAIRef (if playerInRange gs w then w\<lparr>dateReads := Suc (dateReads w)\<rparr> else w))"
    using a by simp
  from chaseSequence_attacking [OF this] a
  show "fst (bossRootTick gs delta w) \<noteq> SUCCESS"
    by (simp add: bossRootTick_status)
qed

text \<open>
  The boss one unit from the player with the cooldown elapsed: the first tick triggers once,
  a second tick on the world it leaves triggers no more.
\<close>

lemma bossRootTick_gating_example:
  "playerInRange closeGameState closeWorld \<and> cooldownElapsed closeWorld
   \<and> \<not> isAttacking (bossAIRef closeWorld)
   \<and> fst (bossRootTick closeGameState 0.05 closeWorld) = SUCCESS
   \<and> bossTriggerCalls (snd (snd (bossRootTick closeGameState 0.05 closeWorld))) = 1
   \<and> isAttacking (bossAIRef (snd (snd (bossRootTick closeGameState 0.05 closeWorld))))
   \<and> bossTriggerCalls (snd (snd (bossRootTick closeGameState 0.05
        (snd (snd (bossRootTick closeGameState 0.05 closeWorld)))))) = 1"
proof -
  from bossRootTick_gating [of closeGameState closeWorld "0.05"] closeWorld_facts
  have 1: "fst (bossRootTick closeGameState 0.05 closeWorld) = SUCCESS"
    "bossTriggerCalls (snd (snd (bossRootTick closeGameState 0.05 closeWorld))) = 1"
    "isAttacking (bossAIRef (snd (snd (bossRootTick closeGameState 0.05 closeWorld))))"
    by simp_all
  from bossRootTick_gating [of closeGameState
      "snd (snd (bossRootTick closeGameState 0.05 closeWorld))" "0.05"] 1
  have "bossTriggerCalls (snd (snd (bossRootTick closeGameState 0.05
        (snd (snd (bossRootTick closeGameState 0.05 closeWorld)))))) = 1"
    by simp
  with 1 closeWorld_facts show ?thesis by simp
qed

text \<open>
  Claim C3 (the code departs from it).  The claim has every root tick made while
  \<open>isAttacking\<close> is still true return RUNNING, and the PerformAttack leaf is written to do
  so: if already attacking it returns RUNNING, to block the other behaviors.  The leaf sits
  behind the cooldown leaf, though, and stamps \<open>lastAttackTime\<close> itself when it triggers, so
  during the attack the cooldown leaf fails first and the root falls through to the chase
  branch.  The boss is one unit from the player and faces it, the cooldown has elapsed: the
  first tick triggers the attack once and sets \<open>isAttacking\<close>.  The next tick, on the same
  snapshot, returns FAILURE, not RUNNING.  If the player has stepped aside in between, the
  next tick turns the boss by 0.125 rad and sets \<open>currentAction\<close> to turning while the attack
  is in flight.
\<close>

theorem attack_in_flight_not_blocking:
  "playerInRange closeGameState closeWorld \<and> cooldownElapsed closeWorld
   \<and> bossTriggerCalls (snd (snd (bossRootTick closeGameState 0.05 closeWorld))) = 1
   \<and> isAttacking (bossAIRef (snd (snd (bossRootTick closeGameState 0.05 closeWorld))))
   \<and> fst (bossRootTick closeGameState 0.05
            (snd (snd (bossRootTick closeGameState 0.05 closeWorld)))) = FAILURE
   \<and> fst (bossRootTick closeGameState 0.05
            (snd (snd (bossRootTick closeGameState 0.05 closeWorld)))) \<noteq> RUNNING
   \<and> bossRotation (state (snd (snd (bossRootTick sideGameState 0.05
            (snd (snd (bossRootTick closeGameState 0.05 closeWorld)))))))
       = \<lparr>ex = 0, ey = pi - 0.125, ez = 0\<rparr>
   \<and> currentAction (bossAIRef (snd (snd (bossRootTick sideGameState 0.05
            (snd (snd (bossRootTick closeGameState 0.05 closeWorld)))))))
       = ''turning''"
proof -
  let ?w1 = "triggerBossAttack (attackStarted (closeWorld\<lparr>dateReads := Suc (dateReads closeWorld)\<rparr>))"
  let ?w2 = "?w1\<lparr>dateReads := Suc (dateReads ?w1)\<rparr>"
  have w1: "snd (snd (bossRootTick closeGameState 0.05 closeWorld)) = ?w1"
    using closeWorld_facts by (simp add: bossRootTick_world_attack)
  have att: "isAttacking (bossAIRef ?w1)" "bossTriggerCalls ?w1 = 1"
    using closeWorld_facts(4) by (simp_all add: triggerBossAttack_frame attackStarted_def)
  have ai: "attackRange (bossAIRef ?w1) = 10" "turnSpeed (bossAIRef ?w2) = 5 / 2"
    by (simp_all add: triggerBossAttack_frame attackStarted_def closeWorld_def initialWorld_def
          initBossAIState_def)
  have rng: "playerInRange closeGameState ?w1"
    using closeWorld_facts(1)
    by (simp add: playerInRange_def triggerBossAttack_frame attackStarted_def)
  have rng': "playerInRange sideGameState ?w1"
    by (simp add: sideGameState_turn(1) ai)
  have cd: "\<not> cooldownElapsed ?w1"
    by (simp add: cooldownElapsed_def triggerBossAttack_def setTimeout_def attackStarted_def
          closeWorld_def initialWorld_def initBossAIState_def attackClock_def Let_def)
  have "isAttacking (bossAIRef ?w2)"
    using att(1) by simp
  from chaseSequence_facing_attacking [OF closeGameState_facing this]
  have f: "fst (bossRootTick closeGameState 0.05 ?w1) = FAILURE"
    using rng cd by (simp add: bossRootTick_status)
  have "snd (snd (bossRootTick sideGameState 0.05 ?w1))
      = snd (snd (execute (chaseSequence sideGameState setBossPosition setBossRotation 0.05) ?w2))"
    using rng' cd by (simp add: bossRootTick_world_chase)
  also have "\<dots> = (setBossRotation \<lparr>ex = 0, ey = pi - 0.125, ez = 0\<rparr> ?w2)
          \<lparr>bossAIRef := (bossAIRef ?w2)\<lparr>currentAction := ''turning''\<rparr>\<rparr>"
    using chaseSequence_side [OF ai(2)] by simp
  finally have t: "snd (snd (bossRootTick sideGameState 0.05 ?w1))
      = (setBossRotation \<lparr>ex = 0, ey = pi - 0.125, ez = 0\<rparr> ?w2)
          \<lparr>bossAIRef := (bossAIRef ?w2)\<lparr>currentAction := ''turning''\<rparr>\<rparr>" .
  have r: "bossRotation (state (snd (snd (bossRootTick sideGameState 0.05 ?w1))))
       = \<lparr>ex = 0, ey = pi - 0.125, ez = 0\<rparr>"
    "currentAction (bossAIRef (snd (snd (bossRootTick sideGameState 0.05 ?w1)))) = ''turning''"
    unfolding t by (simp_all add: setBossRotation_def Let_def split: option.splits)
  from w1 att closeWorld_facts f r show ?thesis by simp
qed

section \<open>Attack resolution\<close>

text \<open>
  What the two damage callbacks do, in terms of the tests they make themselves: the overlap of
  the spheres as the callback places them, and the HP the callback reads.  The reading of
  \<open>Math.random()\<close> lies in \<open>[0, 1)\<close> and the boss HP of the store is not negative.  When the
  callback's own overlap test fails, the callback changes nothing; when it succeeds and the HP
  read is above 0, the new HP is the old HP less the damage, clamped at 0, the damage being
  exactly 10 for the boss's attack and \<open>69 + 51 r\<close>, a value in \<open>[69, 120]\<close>, for the
  player's attack with the reading \<open>r\<close>.  The last part is the fallback branch of the player's
  callback, taken when the window has no mirror.
\<close>

lemma damage_callbacks_effect:
  assumes "0 \<le> random w (randomReads w)" and "random w (randomReads w) < 1"
    and "0 \<le> bossHp (state w)"
  shows
   "(vibenRingGlobalState w = Some g \<and> g_playerHp g = playerHp (state w) \<longrightarrow>
       playerHp (state (bossDamageCallback w))
         = (if bossAttackOverlaps g \<and> 0 < playerHp (state w)
            then max 0 (playerHp (state w) - 10) else playerHp (state w))
     \<and> (playerHp (state (bossDamageCallback w)) < playerHp (state w)
          \<longleftrightarrow> bossAttackOverlaps g \<and> 0 < playerHp (state w))
     \<and> (\<not> bossAttackOverlaps g \<longrightarrow> bossDamageCallback w = w))
  \<and> (vibenRingGlobalState w = Some g \<and> 0 < g_bossHp g \<longrightarrow>
       (\<exists>dmg. dmg = playerDamage (random w (randomReads w)) \<and> 69 \<le> dmg \<and> dmg \<le> 120
          \<and> bossHp (state (characterDamageCallback w))
              = (if playerAttackOverlaps g \<and> 0 < bossHp (state w)
                 then max (bossHp (state w) - dmg) 0 else bossHp (state w)))
     \<and> (bossHp (state (characterDamageCallback w)) < bossHp (state w)
          \<longleftrightarrow> playerAttackOverlaps g \<and> 0 < bossHp (state w))
     \<and> (\<not> playerAttackOverlaps g \<longrightarrow> characterDamageCallback w = w))
  \<and> (vibenRingGlobalState w = None \<and> 0 < bossHp (characterState w) \<longrightarrow>
       (\<exists>dmg. dmg = playerDamage (random w (randomReads w)) \<and> 69 \<le> dmg \<and> dmg \<le> 120
          \<and> bossHp (state (characterDamageCallback w))
              = (if playerAttackOverlapsFallback (characterState w) \<and> 0 < bossHp (state w)
                 then max (bossHp (state w) - dmg) 0 else bossHp (state w)))
     \<and> (bossHp (state (characterDamageCallback w)) < bossHp (state w)
          \<longleftrightarrow> playerAttackOverlapsFallback (characterState w) \<and> 0 < bossHp (state w))
     \<and> (\<not> playerAttackOverlapsFallback (characterState w) \<longrightarrow> characterDamageCallback w = w))"
proof -
  note d = playerDamage_range [OF assms(1,2)]
  have boss: "vibenRingGlobalState w = Some g \<and> g_playerHp g = playerHp (state w) \<longrightarrow>
       playerHp (state (bossDamageCallback w))
         = (if bossAttackOverlaps g \<and> 0 < playerHp (state w)
            then max 0 (playerHp (state w) - 10) else playerHp (state w))
     \<and> (playerHp (state (bossDamageCallback w)) < playerHp (state w)
          \<longleftrightarrow> bossAttackOverlaps g \<and> 0 < playerHp (state w))
     \<and> (\<not> bossAttackOverlaps g \<longrightarrow> bossDamageCallback w = w)"
    by (auto simp add: bossDamageCallback_mirror playerHp_setPlayerHp)
  have player: "vibenRingGlobalState w = Some g \<and> 0 < g_bossHp g \<longrightarrow>
       (\<exists>dmg. dmg = playerDamage (random w (randomReads w)) \<and> 69 \<le> dmg \<and> dmg \<le> 120
          \<and> bossHp (state (characterDamageCallback w))
              = (if playerAttackOverlaps g \<and> 0 < bossHp (state w)
                 then max (bossHp (state w) - dmg) 0 else bossHp (state w)))
     \<and> (bossHp (state (characterDamageCallback w)) < bossHp (state w)
          \<longleftrightarrow> playerAttackOverlaps g \<and> 0 < bossHp (state w))
     \<and> (\<not> playerAttackOverlaps g \<longrightarrow> characterDamageCallback w = w)"
    using d assms(3) by (auto simp add: characterDamageCallback_mirror bossHp_applyDmgToBoss)
  have fallback: "vibenRingGlobalState w = None \<and> 0 < bossHp (characterState w) \<longrightarrow>
       (\<exists>dmg. dmg = playerDamage (random w (randomReads w)) \<and> 69 \<le> dmg \<and> dmg \<le> 120
          \<and> bossHp (state (characterDamageCallback w))
              = (if playerAttackOverlapsFallback (characterState w) \<and> 0 < bossHp (state w)
                 then max (bossHp (state w) - dmg) 0 else bossHp (state w)))
     \<and> (bossHp (state (characterDamageCallback w)) < bossHp (state w)
          \<longleftrightarrow> playerAttackOverlapsFallback (characterState w) \<and> 0 < bossHp (state w))
     \<and> (\<not> playerAttackOverlapsFallback (characterState w) \<longrightarrow> characterDamageCallback w = w)"
    using d assms(3) by (auto simp add: characterDamageCallback_fallback bossHp_applyDmgToBoss)
  from boss player fallback show ?thesis by blast
qed

text \<open>
  At the start of a match the mirror has player and boss at the origin: the player's attack
  hits for 69 (the reading is 0) and leaves 1931, the boss's attack misses and changes
  nothing.  With the boss ten units in front of the player the boss's attack hits and leaves
  the player 90.  Without a mirror the player's callback resolves on the default state, where
  the boss is out of reach, and changes nothing.
\<close>

lemma damage_callbacks_effect_example:
  "0 \<le> random startWorld (randomReads startWorld)
   \<and> random startWorld (randomReads startWorld) < 1
   \<and> 0 \<le> bossHp (state startWorld)
   \<and> vibenRingGlobalState startWorld = Some startMirror
   \<and> g_playerHp startMirror = playerHp (state startWorld) \<and> 0 < g_bossHp startMirror
   \<and> playerAttackOverlaps startMirror
   \<and> bossHp (state (characterDamageCallback startWorld)) = 1931
   \<and> \<not> bossAttackOverlaps startMirror
   \<and> bossDamageCallback startWorld = startWorld
   \<and> playerHp (state (bossDamageCallback reachWorld)) = 90
   \<and> vibenRingGlobalState mirrorlessWorld = None
   \<and> 0 < bossHp (characterState mirrorlessWorld)
   \<and> characterDamageCallback mirrorlessWorld = mirrorlessWorld"
proof -
  have h: "0 \<le> random startWorld (randomReads startWorld)"
    "random startWorld (randomReads startWorld) < 1" "0 \<le> bossHp (state startWorld)"
    by (simp_all add: startWorld_fields)
  have d: "playerDamage 0 = 69"
    by (simp add: playerDamage_def MIN_ATTACK_DAMAGE_def)
  from damage_callbacks_effect [OF h, of startMirror] startWorld_fields startMirror_overlaps d
  have 1: "bossHp (state (characterDamageCallback startWorld)) = 1931"
    "bossDamageCallback startWorld = startWorld"
    by simp_all
  have r: "vibenRingGlobalState reachWorld
        = Some (startMirror\<lparr>g_bossPosition := \<lparr>vx = 0, vy = 0, vz = 10\<rparr>\<rparr>)"
    "random reachWorld (randomReads reachWorld) = 0" "bossHp (state reachWorld) = 2000"
    "playerHp (state reachWorld) = 100"
    by (simp_all add: reachWorld_def startWorld_def initialWorld_def zeroReadings_def
          defaultGameState_def)
  have hr: "0 \<le> random reachWorld (randomReads reachWorld)"
    "random reachWorld (randomReads reachWorld) < 1" "0 \<le> bossHp (state reachWorld)"
    by (simp_all add: r)
  from damage_callbacks_effect [OF hr, of "startMirror\<lparr>g_bossPosition := \<lparr>vx = 0, vy = 0, vz = 10\<rparr>\<rparr>"]
    r reachMirror_overlaps startWorld_fields(5)
  have 2: "playerHp (state (bossDamageCallback reachWorld)) = 90"
    by simp
  have m: "vibenRingGlobalState mirrorlessWorld = None"
    "random mirrorlessWorld (randomReads mirrorlessWorld) = 0"
    "bossHp (state mirrorlessWorld) = 2000"
    "characterState mirrorlessWorld = defaultGameState"
    by (simp_all add: mirrorlessWorld_def startWorld_def initialWorld_def zeroReadings_def
          defaultGameState_def)
  have hm: "0 \<le> random mirrorlessWorld (randomReads mirrorlessWorld)"
    "random mirrorlessWorld (randomReads mirrorlessWorld) < 1"
    "0 \<le> bossHp (state mirrorlessWorld)"
    by (simp_all add: m)
  have b: "bossHp defaultGameState = 2000" by (simp add: defaultGameState_def)
  from damage_callbacks_effect [OF hm, of startMirror] m default_fallback_misses b
  have 3: "characterDamageCallback mirrorlessWorld = mirrorlessWorld"
    by simp
  from h 1 2 3 m b startWorld_fields startMirror_overlaps show ?thesis by simp
qed

text \<open>
  Claim C4 (the code departs from it).  The claim has damage applied if and only if the
  attacker's attack sphere overlaps the defender's collision sphere and the defender's HP is
  above 0.  The boss's callback tests a sphere that is not the boss's attack sphere: it
  subtracts the Z component of the turned offset instead of adding it.  With the boss at
  \<open>(0, 0, 20)\<close> and yaw \<open>\<pi>\<close>, a player at \<open>(0, 0, 10)\<close> is inside the attack sphere, has 100 HP
  and keeps them; a player at \<open>(0, 0, 30)\<close>, ten units behind the boss and outside the attack
  sphere, drops from 100 to 90.  The player's callback reads the defender's HP from the
  mirror, whose boss HP nothing updates: with the boss HP of the store at 0 and the spheres
  overlapping it still takes the hit branch, draws a random number and applies 69 damage
  (which the clamp of \<open>applyDmgToBoss\<close> keeps at 0).
\<close>

theorem attack_resolution_defects:
  "bossAttackOverlapsBySpec frontMirror
   \<and> playerHp (state frontWorld) = 100
   \<and> playerHp (state (bossDamageCallback frontWorld)) = 100
   \<and> \<not> bossAttackOverlapsBySpec behindMirror
   \<and> playerHp (state behindWorld) = 100
   \<and> playerHp (state (bossDamageCallback behindWorld)) = 90
   \<and> playerAttackOverlaps startMirror
   \<and> bossHp (state deadBossWorld) = 0
   \<and> characterDamageCallback deadBossWorld
       = applyDmgToBoss 69 (deadBossWorld\<lparr>randomReads := 1\<rparr>)
   \<and> characterDamageCallback deadBossWorld \<noteq> deadBossWorld"
proof -
  have f: "vibenRingGlobalState frontWorld = Some frontMirror"
    "playerHp (state frontWorld) = 100"
    by (simp_all add: frontWorld_def startWorld_fields)
  have b: "vibenRingGlobalState behindWorld = Some behindMirror"
    "playerHp (state behindWorld) = 100"
    by (simp_all add: behindWorld_def startWorld_fields)
  have d: "vibenRingGlobalState deadBossWorld = Some startMirror"
    "bossHp (state deadBossWorld) = 0" "randomReads deadBossWorld = 0"
    "random deadBossWorld 0 = 0"
    by (simp_all add: deadBossWorld_def startWorld_fields)
       (simp_all add: startWorld_def initialWorld_def zeroReadings_def)
  have 1: "bossDamageCallback frontWorld = frontWorld"
    using turned_mirrors_overlap(2) by (simp add: bossDamageCallback_mirror [OF f(1)])
  have 2: "playerHp (state (bossDamageCallback behindWorld)) = 90"
    using turned_mirrors_overlap(4,6)
    by (simp add: bossDamageCallback_mirror [OF b(1)] playerHp_setPlayerHp)
  have 3: "characterDamageCallback deadBossWorld
       = applyDmgToBoss 69 (deadBossWorld\<lparr>randomReads := 1\<rparr>)"
    using startMirror_overlaps(1) startWorld_fields(6) d(3,4)
    by (simp add: characterDamageCallback_mirror [OF d(1)] playerDamage_def
          MIN_ATTACK_DAMAGE_def)
  have "randomReads (applyDmgToBoss 69 (deadBossWorld\<lparr>randomReads := 1\<rparr>)) = 1"
    by (simp add: applyDmgToBoss_def)
  with d(3) have 4: "applyDmgToBoss 69 (deadBossWorld\<lparr>randomReads := 1\<rparr>) \<noteq> deadBossWorld"
    by auto
  from turned_mirrors_overlap(1,3) startMirror_overlaps(1) f b d 1 2 3 4
  show ?thesis by simp
qed

section \<open>The backup timeout\<close>




end
